theory Spec2Isabelle
  imports Main "HOL-Library.Sublist"
begin

section \<open>The lifecycle recorder of \<open>lifecycle.component.ts\<close>\<close>

text \<open>
  The class \<open>LifecycleComponent\<close> is embedded as a record of its fields together with
  the two pieces of the environment its methods touch: the diagnostic console and the
  wall clock.  Every method becomes a function from the state before the call to the
  state after it.  The class has no \<open>throw\<close> statement and no guard on the lifecycle
  phase; the only exceptions a method can raise come from the body of the loop of
  \<open>ngOnChanges\<close> (reading a field of a missing entry, and \<open>JSON.stringify\<close>), and there
  the call ends with the error and leaves behind the state reached so far.

  Conventions of the embedding:
  \<^item> Strings are byte strings; the arrow of the per-property line is written as its three
    UTF-8 bytes.  No statement below depends on the length of a string.
  \<^item> The three private occurrence counters start at 0 and change only by \<open>++\<close>, once per
    call, so they are naturals: a JavaScript number counts exactly up to \<open>2^53\<close>, more
    calls than any run delivers.  The public field \<open>counter\<close> is a natural as well, and
    for it the rounding of \<open>++\<close> from \<open>2^53\<close> on is written out.
  \<^item> \<open>new Date().toLocaleTimeString()\<close> is an input of the environment: the parameter
    \<open>tls\<close> gives the text returned by the \<open>k\<close>-th reading of the clock, and the field
    \<open>clock\<close> counts the readings made so far.
\<close>

subsection \<open>Values of a changeset and their rendering\<close>

datatype error = TypeError | UserError

text \<open>
  The \<open>previousValue\<close> and \<open>currentValue\<close> of a \<open>SimpleChange\<close> have type \<open>any\<close>.  The loop
  of \<open>ngOnChanges\<close> does one thing with them: it passes them to \<open>JSON.stringify\<close>, a
  built-in of the platform.  \<open>undefined\<close>, \<open>null\<close>, booleans and strings are modelled as
  they are.  Every other value is represented by what \<open>JSON.stringify\<close> does on it:
  \<^item> \<open>JJson t\<close>: a number, or an array or object that \<open>JSON.stringify\<close> serialises; \<open>t\<close>
    is the text it returns;
  \<^item> \<open>JOmitted\<close>: a function or a symbol, for which it returns \<open>undefined\<close>;
  \<^item> \<open>JThrows e\<close>: a value on which it throws: \<open>TypeError\<close> for a bigint and for an
    array or object that holds a bigint or a cycle, \<open>UserError\<close> for an exception thrown
    by a \<open>toJSON\<close> method of the value.
\<close>

datatype jsval =
    JUndefined
  | JNull
  | JBool bool
  | JStr string
  | JJson string
  | JOmitted
  | JThrows error

record simple_change =
  previousValue :: jsval
  currentValue :: jsval
  firstChange :: bool

text \<open>
  A changeset is written as the members of an object literal, in the order in which they
  are written (equivalently, the assignments \<open>changes[name] = entry\<close> in the order in
  which the host makes them).  An entry is \<open>Some\<close> change object; a field the object lacks
  is \<open>undefined\<close>, and an entry that is a number, a string or a boolean lacks both.
  \<open>None\<close> is an entry that is \<open>null\<close> or \<open>undefined\<close>.
\<close>

type_synonym simple_changes = "(string \<times> simple_change option) list"

text \<open>
  The own properties of the object, in the order of their creation: a name written twice
  keeps its first position and takes the later value.
\<close>

fun assign :: "string \<Rightarrow> 'v \<Rightarrow> (string \<times> 'v) list \<Rightarrow> (string \<times> 'v) list" where
  "assign k v [] = [(k, v)]"
| "assign k v ((k', v') # ps) = (if k' = k then (k, v) # ps else (k', v') # assign k v ps)"

definition object_of :: "(string \<times> 'v) list \<Rightarrow> (string \<times> 'v) list" where
  "object_of members = foldl (\<lambda>obj (k, v). assign k v obj) [] members"

text \<open>
  \<open>for (const propName in changes)\<close> enumerates the property names that are array indices
  (the canonical decimal numerals below \<open>2^32 - 1\<close>) first, in ascending numeric order,
  and then the other names in the order of their creation.
\<close>

definition is_digit :: "char \<Rightarrow> bool" where
  "is_digit c = (48 \<le> (of_char c :: nat) \<and> (of_char c :: nat) \<le> 57)"

definition dec_value :: "string \<Rightarrow> nat" where
  "dec_value s = foldl (\<lambda>n c. 10 * n + ((of_char c :: nat) - 48)) 0 s"

definition is_array_index :: "string \<Rightarrow> bool" where
  "is_array_index s =
     (s \<noteq> [] \<and> list_all is_digit s \<and> (length s = 1 \<or> hd s \<noteq> CHR ''0'')
      \<and> dec_value s < 4294967295)"

definition for_in :: "(string \<times> 'v) list \<Rightarrow> (string \<times> 'v) list" where
  "for_in members =
     (let props = object_of members
      in sort_key (\<lambda>(k, v). dec_value k) (filter (\<lambda>(k, v). is_array_index k) props)
           @ filter (\<lambda>(k, v). \<not> is_array_index k) props)"

text \<open>
  \<open>JSON.stringify\<close>: on a string, the string in double quotes with the quote, the
  backslash and the control characters escaped; on \<open>null\<close> and on booleans their literal;
  on \<open>undefined\<close> the value \<open>undefined\<close> (here \<open>None\<close>), which a template literal prints as
  the text \<open>undefined\<close>.
\<close>

definition hex_digit :: "nat \<Rightarrow> char" where
  "hex_digit d = ''0123456789abcdef'' ! (d mod 16)"

definition json_escape :: "char \<Rightarrow> string" where
  "json_escape c =
     (if c = CHR 0x22 then [CHR 0x5C, CHR 0x22]
      else if c = CHR 0x5C then [CHR 0x5C, CHR 0x5C]
      else if c = CHR 0x08 then [CHR 0x5C, CHR ''b'']
      else if c = CHR 0x0C then [CHR 0x5C, CHR ''f'']
      else if c = CHR 0x0A then [CHR 0x5C, CHR ''n'']
      else if c = CHR 0x0D then [CHR 0x5C, CHR ''r'']
      else if c = CHR 0x09 then [CHR 0x5C, CHR ''t'']
      else if (of_char c :: nat) < 32
        then [CHR 0x5C, CHR ''u'', CHR ''0'', CHR ''0'',
              hex_digit (of_char c div 16), hex_digit (of_char c mod 16)]
      else [c])"

definition json_quote :: "string \<Rightarrow> string" where
  "json_quote s = [CHR 0x22] @ concat (map json_escape s) @ [CHR 0x22]"

fun JSON_stringify :: "jsval \<Rightarrow> error + string option" where
  "JSON_stringify JUndefined = Inr None"
| "JSON_stringify JNull = Inr (Some ''null'')"
| "JSON_stringify (JBool b) = Inr (Some (if b then ''true'' else ''false''))"
| "JSON_stringify (JStr s) = Inr (Some (json_quote s))"
| "JSON_stringify (JJson t) = Inr (Some t)"
| "JSON_stringify JOmitted = Inr None"
| "JSON_stringify (JThrows e) = Inl e"

text \<open>\<open>${e}\<close> inside a template literal, for \<open>e\<close> a string or \<open>undefined\<close>.\<close>

fun interpolate :: "string option \<Rightarrow> string" where
  "interpolate None = ''undefined''"
| "interpolate (Some s) = s"

text \<open>
  \<open>${n}\<close> for a number that is a natural below \<open>10^21\<close>: its decimal digits.
\<close>

fun num_to_string :: "nat \<Rightarrow> string" where
  "num_to_string n =
     (if n < 10 then [''0123456789'' ! n]
      else num_to_string (n div 10) @ [''0123456789'' ! (n mod 10)])"

declare num_to_string.simps [simp del]

definition arrow :: string where
  "arrow = [CHR 0xE2, CHR 0x86, CHR 0x92]"

text \<open>
  \<open>n++\<close> on a field that holds the natural \<open>n\<close> as a double.  Up to \<open>2^53\<close> every natural
  is a double and the sum is exact.  From \<open>2^53\<close> to \<open>2^54\<close> the doubles are the even
  numbers, and \<open>n + 1\<close> lies half way between two of them: it is rounded to the one with
  the even significand.  From \<open>2^54\<close> on, \<open>n + 1\<close> is rounded back to \<open>n\<close>.
\<close>

definition post_increment :: "nat \<Rightarrow> nat" where
  "post_increment n =
     (if n < 9007199254740992 then n + 1
      else if n < 18014398509481984 \<and> odd (n div 2) then n + 2
      else n)"

subsection \<open>The component and its environment\<close>

record recorder =
  name :: string
  counter :: nat
  logs :: "string list"
  checkCount :: nat
  contentCheckCount :: nat
  viewCheckCount :: nat
  console :: "string list"
  clock :: nat

text \<open>
  \<open>addLog\<close>: read the clock, push the stamped line, print the same line on the console,
  and drop the first element (\<open>shift\<close>) when the array has grown beyond 50.
\<close>

definition addLog :: "(nat \<Rightarrow> string) \<Rightarrow> string \<Rightarrow> recorder \<Rightarrow> recorder" where
  "addLog tls message s =
     (let timestamp = tls (clock s);
          line = ''['' @ timestamp @ ''] '' @ message;
          s1 = s\<lparr>clock := clock s + 1, logs := logs s @ [line]\<rparr>;
          s2 = s1\<lparr>console := console s1 @ [line]\<rparr>
      in if length (logs s2) > 50 then s2\<lparr>logs := tl (logs s2)\<rparr> else s2)"

text \<open>The field initialisers, before the body of the constructor runs.\<close>

definition fresh :: recorder where
  "fresh = \<lparr>name = ''Default Component'', counter = 0, logs = [],
            checkCount = 0, contentCheckCount = 0, viewCheckCount = 0,
            console = [], clock = 0\<rparr>"

definition constructor :: "(nat \<Rightarrow> string) \<Rightarrow> recorder" where
  "constructor tls = addLog tls ''#1. Constructor: Component instance created'' fresh"

text \<open>
  A call either returns or throws; in both cases the instance is left in a state.
\<close>

datatype outcome = Returned recorder | Threw error recorder

fun state_of :: "outcome \<Rightarrow> recorder" where
  "state_of (Returned s) = s"
| "state_of (Threw e s) = s"

fun returned :: "outcome \<Rightarrow> bool" where
  "returned (Returned s) = True"
| "returned (Threw e s) = False"

text \<open>
  The body of the \<open>for ... in\<close> loop of \<open>ngOnChanges\<close>, one enumerated entry after the
  other: \<open>change.currentValue\<close> (a \<open>TypeError\<close> when the entry is \<open>null\<close> or \<open>undefined\<close>),
  \<open>JSON.stringify\<close> of the current and then of the previous value, then \<open>addLog\<close>.
\<close>

fun ngOnChanges_loop :: "(nat \<Rightarrow> string) \<Rightarrow> simple_changes \<Rightarrow> recorder \<Rightarrow> outcome" where
  "ngOnChanges_loop tls [] s = Returned s"
| "ngOnChanges_loop tls ((propName, None) # rest) s = Threw TypeError s"
| "ngOnChanges_loop tls ((propName, Some change) # rest) s =
     (case JSON_stringify (currentValue change) of
        Inl e \<Rightarrow> Threw e s
      | Inr current \<Rightarrow>
          (case JSON_stringify (previousValue change) of
             Inl e \<Rightarrow> Threw e s
           | Inr previous \<Rightarrow>
               ngOnChanges_loop tls rest
                 (addLog tls (''#2. ngOnChanges: - '' @ propName @ '': '' @ interpolate previous
                                @ '' '' @ arrow @ '' '' @ interpolate current) s)))"

definition ngOnChanges :: "(nat \<Rightarrow> string) \<Rightarrow> simple_changes \<Rightarrow> recorder \<Rightarrow> outcome" where
  "ngOnChanges tls changes s =
     ngOnChanges_loop tls (for_in changes)
       (addLog tls ''#2. ngOnChanges: Input properties changed'' s)"

definition ngOnInit :: "(nat \<Rightarrow> string) \<Rightarrow> recorder \<Rightarrow> recorder" where
  "ngOnInit tls s = addLog tls ''#3. ngOnInit: Component initialized (called once)'' s"

definition ngDoCheck :: "(nat \<Rightarrow> string) \<Rightarrow> recorder \<Rightarrow> recorder" where
  "ngDoCheck tls s =
     (let s1 = s\<lparr>checkCount := checkCount s + 1\<rparr>
      in if checkCount s1 \<le> 5 \<or> checkCount s1 mod 10 = 0
         then addLog tls (''#4. ngDoCheck: Change detection run #'' @ num_to_string (checkCount s1)) s1
         else s1)"

definition ngAfterContentInit :: "(nat \<Rightarrow> string) \<Rightarrow> recorder \<Rightarrow> recorder" where
  "ngAfterContentInit tls s =
     addLog tls ''#5. ngAfterContentInit: Content projection initialized (called once)'' s"

definition ngAfterContentChecked :: "(nat \<Rightarrow> string) \<Rightarrow> recorder \<Rightarrow> recorder" where
  "ngAfterContentChecked tls s =
     (let s1 = s\<lparr>contentCheckCount := contentCheckCount s + 1\<rparr>
      in if contentCheckCount s1 \<le> 3 \<or> contentCheckCount s1 mod 10 = 0
         then addLog tls (''#6. ngAfterContentChecked: Content checked #''
                            @ num_to_string (contentCheckCount s1)) s1
         else s1)"

definition ngAfterViewInit :: "(nat \<Rightarrow> string) \<Rightarrow> recorder \<Rightarrow> recorder" where
  "ngAfterViewInit tls s = addLog tls ''#7. ngAfterViewInit: View initialized (called once)'' s"

definition ngAfterViewChecked :: "(nat \<Rightarrow> string) \<Rightarrow> recorder \<Rightarrow> recorder" where
  "ngAfterViewChecked tls s =
     (let s1 = s\<lparr>viewCheckCount := viewCheckCount s + 1\<rparr>
      in if viewCheckCount s1 \<le> 3 \<or> viewCheckCount s1 mod 10 = 0
         then addLog tls (''#8. ngAfterViewChecked: View checked #''
                            @ num_to_string (viewCheckCount s1)) s1
         else s1)"

definition cleanup_line :: string where
  "cleanup_line = ''#9. ngOnDestroy: Component destroyed - cleanup complete''"

definition ngOnDestroy :: "(nat \<Rightarrow> string) \<Rightarrow> recorder \<Rightarrow> recorder" where
  "ngOnDestroy tls s =
     (let s1 = addLog tls ''#9. ngOnDestroy: Component is being destroyed'' s
      in s1\<lparr>console := console s1 @ [cleanup_line]\<rparr>)"

definition incrementCounter :: "(nat \<Rightarrow> string) \<Rightarrow> recorder \<Rightarrow> recorder" where
  "incrementCounter tls s =
     (let s1 = s\<lparr>counter := post_increment (counter s)\<rparr>
      in addLog tls (''User Action: Counter incremented to '' @ num_to_string (counter s1)) s1)"

subsection \<open>The host: calls made on an instance\<close>

text \<open>
  The framework and the template call the public methods of an instance one at a time.
  A call is a value of \<open>call\<close>; \<open>deliver\<close> performs it and \<open>run\<close> performs a sequence of
  calls from left to right.  Nothing restricts the order of the calls, and a call that
  throws leaves the instance in place: the next call finds the state the throwing call
  left behind.
\<close>

datatype call =
    NgOnChanges simple_changes
  | NgOnInit
  | NgDoCheck
  | NgAfterContentInit
  | NgAfterContentChecked
  | NgAfterViewInit
  | NgAfterViewChecked
  | NgOnDestroy
  | IncrementCounter

fun deliver :: "(nat \<Rightarrow> string) \<Rightarrow> call \<Rightarrow> recorder \<Rightarrow> outcome" where
  "deliver tls (NgOnChanges changes) s = ngOnChanges tls changes s"
| "deliver tls NgOnInit s = Returned (ngOnInit tls s)"
| "deliver tls NgDoCheck s = Returned (ngDoCheck tls s)"
| "deliver tls NgAfterContentInit s = Returned (ngAfterContentInit tls s)"
| "deliver tls NgAfterContentChecked s = Returned (ngAfterContentChecked tls s)"
| "deliver tls NgAfterViewInit s = Returned (ngAfterViewInit tls s)"
| "deliver tls NgAfterViewChecked s = Returned (ngAfterViewChecked tls s)"
| "deliver tls NgOnDestroy s = Returned (ngOnDestroy tls s)"
| "deliver tls IncrementCounter s = Returned (incrementCounter tls s)"

fun run :: "(nat \<Rightarrow> string) \<Rightarrow> call list \<Rightarrow> recorder \<Rightarrow> recorder" where
  "run tls [] s = s"
| "run tls (c # cs) s = run tls cs (state_of (deliver tls c s))"

subsection \<open>Observations used in the statements\<close>

text \<open>
  Every line pushed onto \<open>logs\<close> is printed on the console by the same call of \<open>addLog\<close>;
  the only other console output of the class is the fixed clean-up line of
  \<open>ngOnDestroy\<close>.  Hence \<open>pushed\<close> is the sequence of all lines ever pushed, oldest first.
\<close>

definition pushed :: "recorder \<Rightarrow> string list" where
  "pushed s = filter (\<lambda>l. l \<noteq> cleanup_line) (console s)"

text \<open>The last \<open>k\<close> elements of a list, in their order.\<close>

definition lastn :: "nat \<Rightarrow> 'a list \<Rightarrow> 'a list" where
  "lastn k xs = drop (length xs - k) xs"

text \<open>The line \<open>addLog\<close> builds for a message when the clock has been read \<open>k\<close> times.\<close>

definition stamped :: "(nat \<Rightarrow> string) \<Rightarrow> nat \<Rightarrow> string \<Rightarrow> string" where
  "stamped tls k message = ''['' @ tls k @ ''] '' @ message"

text \<open>
  The entries that the step from \<open>s\<close> to \<open>s'\<close> appended to the log buffer: the lines \<open>new\<close>
  printed during the step, provided the buffer after the step is the buffer before it
  followed by \<open>new\<close> and cut down to its last 50 entries.  A step that prints lines without
  appending them to \<open>logs\<close> in this way has appended nothing.
\<close>

definition new_entries :: "recorder \<Rightarrow> recorder \<Rightarrow> string list" where
  "new_entries s s' =
     (let new = drop (length (pushed s)) (pushed s')
      in if pushed s' = pushed s @ new \<and> logs s' = lastn 50 (logs s @ new) then new else [])"

text \<open>
  The number of entries appended to the log buffer by those calls of a sequence that
  satisfy \<open>P\<close>, counted call by call.
\<close>

fun logged_by :: "(call \<Rightarrow> bool) \<Rightarrow> (nat \<Rightarrow> string) \<Rightarrow> call list \<Rightarrow> recorder \<Rightarrow> nat" where
  "logged_by P tls [] s = 0"
| "logged_by P tls (c # cs) s =
     (if P c then length (new_entries s (state_of (deliver tls c s))) else 0)
       + logged_by P tls cs (state_of (deliver tls c s))"

definition occurrences :: "call \<Rightarrow> call list \<Rightarrow> nat" where
  "occurrences c cs = length (filter (\<lambda>x. x = c) cs)"

text \<open>
  An enumerated entry at which the loop of \<open>ngOnChanges\<close> throws, the text printed for a
  value, the message of the line pushed for an entry, and the lines pushed for a list of
  entries when the clock has been read \<open>k\<close> times before.
\<close>

fun throws :: "string \<times> simple_change option \<Rightarrow> bool" where
  "throws (propName, None) = True"
| "throws (propName, Some change) =
     (isl (JSON_stringify (currentValue change)) \<or> isl (JSON_stringify (previousValue change)))"

fun printed :: "jsval \<Rightarrow> string" where
  "printed JUndefined = ''undefined''"
| "printed JNull = ''null''"
| "printed (JBool b) = (if b then ''true'' else ''false'')"
| "printed (JStr s) = json_quote s"
| "printed (JJson t) = t"
| "printed JOmitted = ''undefined''"
| "printed (JThrows e) = []"

fun change_message :: "string \<times> simple_change option \<Rightarrow> string" where
  "change_message (propName, None) = []"
| "change_message (propName, Some change) =
     ''#2. ngOnChanges: - '' @ propName @ '': '' @ printed (previousValue change)
       @ '' '' @ arrow @ '' '' @ printed (currentValue change)"

fun change_lines :: "(nat \<Rightarrow> string) \<Rightarrow> nat \<Rightarrow> simple_changes \<Rightarrow> string list" where
  "change_lines tls k [] = []"
| "change_lines tls k (entry # rest) =
     stamped tls k (change_message entry) # change_lines tls (Suc k) rest"

text \<open>The buffer holds the last 50 of the lines pushed so far.\<close>

definition buffered :: "recorder \<Rightarrow> bool" where
  "buffered s = (logs s = lastn 50 (pushed s))"

text \<open>A clock for the concrete runs below: every reading shows noon.\<close>

definition noon :: "nat \<Rightarrow> string" where
  "noon k = ''12:00:00 PM''"

section \<open>What one call of \<open>addLog\<close> does\<close>

lemma addLog_console: "console (addLog tls m s) = console s @ [stamped tls (clock s) m]"
  by (simp add: addLog_def stamped_def Let_def)

lemma addLog_clock: "clock (addLog tls m s) = Suc (clock s)"
  by (simp add: addLog_def Let_def)

lemma addLog_logs:
  "logs (addLog tls m s) =
     (if length (logs s) < 50 then logs s @ [stamped tls (clock s) m]
      else tl (logs s) @ [stamped tls (clock s) m])"
  by (cases "logs s") (simp_all add: addLog_def stamped_def Let_def)

lemma addLog_fields:
  "name (addLog tls m s) = name s"
  "counter (addLog tls m s) = counter s"
  "checkCount (addLog tls m s) = checkCount s"
  "contentCheckCount (addLog tls m s) = contentCheckCount s"
  "viewCheckCount (addLog tls m s) = viewCheckCount s"
  by (simp_all add: addLog_def Let_def)

lemma stamped_not_cleanup: "stamped tls k m \<noteq> cleanup_line"
  by (simp add: stamped_def cleanup_line_def)

lemma addLog_pushed: "pushed (addLog tls m s) = pushed s @ [stamped tls (clock s) m]"
  by (simp add: pushed_def addLog_console stamped_not_cleanup)

lemma lastn_length: "length (lastn k xs) = min k (length xs)"
  by (simp add: lastn_def)

lemma lastn_snoc:
  "lastn 50 (xs @ [x]) =
     (if length (lastn 50 xs) < 50 then lastn 50 xs @ [x] else tl (lastn 50 xs) @ [x])"
proof (cases "length xs < 50")
  case True
  then show ?thesis by (simp add: lastn_def)
next
  case False
  then have eq: "Suc (length xs) - 50 = Suc (length xs - 50)" by simp
  have "tl (drop (length xs - 50) xs) = drop (Suc (length xs - 50)) xs"
    by (simp add: drop_Suc tl_drop)
  with False eq show ?thesis by (simp add: lastn_def)
qed

lemma lastn_short: "length xs \<le> k \<Longrightarrow> lastn k xs = xs"
  by (simp add: lastn_def)

lemma lastn_lastn_append: "lastn k (lastn k xs @ ys) = lastn k (xs @ ys)"
proof (cases "length xs \<le> k")
  case True
  then show ?thesis by (simp add: lastn_short)
next
  case False
  define d where "d = length xs - k"
  have len: "length (drop d xs) = k" using False by (simp add: d_def)
  have "lastn k (drop d xs @ ys) = drop (length ys) (drop d xs @ ys)"
    using len by (simp add: lastn_def)
  also have "\<dots> = drop (length ys) (drop d (xs @ ys))"
    using False by (simp add: d_def)
  also have "\<dots> = drop (length ys + d) (xs @ ys)"
    by (simp only: drop_drop)
  also have "length ys + d = length (xs @ ys) - k"
    using False by (simp add: d_def)
  finally show ?thesis by (simp add: lastn_def d_def)
qed

lemma buffered_length: "buffered s \<Longrightarrow> length (logs s) \<le> 50"
  by (simp add: buffered_def lastn_length)

lemma buffered_extend:
  "buffered s \<Longrightarrow> buffered s' \<Longrightarrow> pushed s' = pushed s @ new \<Longrightarrow>
     logs s' = lastn 50 (logs s @ new)"
  by (simp add: buffered_def lastn_lastn_append)

section \<open>The buffer invariant\<close>

lemma buffered_addLog: "buffered s \<Longrightarrow> buffered (addLog tls m s)"
  by (simp add: buffered_def addLog_logs addLog_pushed lastn_snoc)

lemma buffered_fresh: "buffered fresh"
  by (simp add: buffered_def fresh_def pushed_def lastn_def)

lemma buffered_upd:
  "buffered (s\<lparr>checkCount := a\<rparr>) = buffered s"
  "buffered (s\<lparr>contentCheckCount := a\<rparr>) = buffered s"
  "buffered (s\<lparr>viewCheckCount := a\<rparr>) = buffered s"
  "buffered (s\<lparr>counter := b\<rparr>) = buffered s"
  by (simp_all add: buffered_def pushed_def)

lemma printed_interpolate: "JSON_stringify v = Inr r \<Longrightarrow> interpolate r = printed v"
  by (cases v) auto

lemma loop_step:
  assumes "\<not> throws (propName, Some change)"
  shows "ngOnChanges_loop tls ((propName, Some change) # rest) s =
           ngOnChanges_loop tls rest (addLog tls (change_message (propName, Some change)) s)"
proof -
  from assms obtain c where c: "JSON_stringify (currentValue change) = Inr c"
    by (cases "JSON_stringify (currentValue change)") simp_all
  from assms obtain p where p: "JSON_stringify (previousValue change) = Inr p"
    by (cases "JSON_stringify (previousValue change)") simp_all
  show ?thesis
    by (simp add: c p printed_interpolate [OF c] printed_interpolate [OF p])
qed

lemma loop_throw:
  assumes "throws entry"
  shows "state_of (ngOnChanges_loop tls (entry # rest) s) = s"
    and "\<not> returned (ngOnChanges_loop tls (entry # rest) s)"
proof -
  obtain propName change where e: "entry = (propName, change)" by (cases entry)
  show "state_of (ngOnChanges_loop tls (entry # rest) s) = s"
  proof (cases change)
    case None
    then show ?thesis by (simp add: e)
  next
    case (Some ch)
    with assms e show ?thesis
      by (cases "JSON_stringify (currentValue ch)"; cases "JSON_stringify (previousValue ch)")
         simp_all
  qed
  show "\<not> returned (ngOnChanges_loop tls (entry # rest) s)"
  proof (cases change)
    case None
    then show ?thesis by (simp add: e)
  next
    case (Some ch)
    with assms e show ?thesis
      by (cases "JSON_stringify (currentValue ch)"; cases "JSON_stringify (previousValue ch)")
         simp_all
  qed
qed

lemma loop_cases:
  obtains (stop) "throws entry"
  | (go) propName change where "entry = (propName, Some change)" "\<not> throws entry"
proof (cases "throws entry")
  case True
  then show ?thesis by (rule stop)
next
  case False
  obtain propName change where e: "entry = (propName, change)" by (cases entry)
  with False obtain ch where "change = Some ch" by (cases change) simp_all
  with e False show ?thesis by (auto intro: go)
qed

lemma buffered_loop: "buffered s \<Longrightarrow> buffered (state_of (ngOnChanges_loop tls entries s))"
proof (induction entries arbitrary: s)
  case Nil
  then show ?case by simp
next
  case (Cons entry entries)
  show ?case
  proof (cases entry rule: loop_cases)
    case stop
    with Cons.prems show ?thesis by (simp add: loop_throw del: ngOnChanges_loop.simps throws.simps)
  next
    case (go propName change)
    with Cons show ?thesis by (simp add: loop_step buffered_addLog del: ngOnChanges_loop.simps throws.simps)
  qed
qed

lemma buffered_handlers:
  assumes "buffered s"
  shows "buffered (state_of (ngOnChanges tls changes s))"
    and "buffered (ngOnInit tls s)"
    and "buffered (ngDoCheck tls s)"
    and "buffered (ngAfterContentInit tls s)"
    and "buffered (ngAfterContentChecked tls s)"
    and "buffered (ngAfterViewInit tls s)"
    and "buffered (ngAfterViewChecked tls s)"
    and "buffered (ngOnDestroy tls s)"
    and "buffered (incrementCounter tls s)"
proof -
  show "buffered (state_of (ngOnChanges tls changes s))"
    using assms by (simp add: ngOnChanges_def buffered_loop buffered_addLog)
  have "buffered (addLog tls ''#9. ngOnDestroy: Component is being destroyed'' s)"
    using assms by (rule buffered_addLog)
  then show "buffered (ngOnDestroy tls s)"
    by (simp add: ngOnDestroy_def Let_def buffered_def pushed_def)
qed (use assms in \<open>simp_all add: ngOnInit_def ngDoCheck_def ngAfterContentInit_def
       ngAfterContentChecked_def ngAfterViewInit_def ngAfterViewChecked_def
       incrementCounter_def Let_def buffered_addLog buffered_upd\<close>)

lemma buffered_deliver: "buffered s \<Longrightarrow> buffered (state_of (deliver tls c s))"
  by (cases c) (simp_all add: buffered_handlers)

lemma buffered_run: "buffered s \<Longrightarrow> buffered (run tls cs s)"
  by (induction cs arbitrary: s) (simp_all add: buffered_deliver)

lemma buffered_constructor: "buffered (constructor tls)"
  by (simp add: constructor_def buffered_addLog buffered_fresh)

section \<open>What each handler pushes\<close>

lemma loop_pushed:
  "pushed (state_of (ngOnChanges_loop tls entries s)) =
     pushed s @ change_lines tls (clock s) (takeWhile (\<lambda>e. \<not> throws e) entries)"
proof (induction entries arbitrary: s)
  case Nil
  show ?case by simp
next
  case (Cons entry entries)
  show ?case
  proof (cases entry rule: loop_cases)
    case stop
    then show ?thesis by (simp add: loop_throw del: ngOnChanges_loop.simps throws.simps)
  next
    case (go propName change)
    with Cons.IH [of "addLog tls (change_message (propName, Some change)) s"]
    show ?thesis by (simp add: loop_step addLog_pushed addLog_clock del: ngOnChanges_loop.simps throws.simps)
  qed
qed

lemma loop_returned:
  "returned (ngOnChanges_loop tls entries s) = (\<not> list_ex throws entries)"
proof (induction entries arbitrary: s)
  case Nil
  show ?case by simp
next
  case (Cons entry entries)
  show ?case
  proof (cases entry rule: loop_cases)
    case stop
    then show ?thesis by (simp add: loop_throw del: ngOnChanges_loop.simps throws.simps)
  next
    case (go propName change)
    with Cons.IH [of "addLog tls (change_message (propName, Some change)) s"]
    show ?thesis by (simp add: loop_step del: ngOnChanges_loop.simps throws.simps)
  qed
qed

lemma loop_frame:
  assumes "\<And>m s. f (addLog tls m s) = f s"
  shows "f (state_of (ngOnChanges_loop tls entries s)) = f s"
proof (induction entries arbitrary: s)
  case Nil
  show ?case by simp
next
  case (Cons entry entries)
  show ?case
  proof (cases entry rule: loop_cases)
    case stop
    then show ?thesis by (simp add: loop_throw del: ngOnChanges_loop.simps throws.simps)
  next
    case (go propName change)
    with Cons.IH [of "addLog tls (change_message (propName, Some change)) s"] assms
    show ?thesis by (simp add: loop_step del: ngOnChanges_loop.simps throws.simps)
  qed
qed

lemma loop_fields:
  "name (state_of (ngOnChanges_loop tls entries s)) = name s"
  "counter (state_of (ngOnChanges_loop tls entries s)) = counter s"
  "checkCount (state_of (ngOnChanges_loop tls entries s)) = checkCount s"
  "contentCheckCount (state_of (ngOnChanges_loop tls entries s)) = contentCheckCount s"
  "viewCheckCount (state_of (ngOnChanges_loop tls entries s)) = viewCheckCount s"
  by (rule loop_frame, simp add: addLog_fields)+

lemma length_change_lines: "length (change_lines tls k entries) = length entries"
  by (induction entries arbitrary: k) auto

lemma change_lines_enumerate:
  "change_lines tls k entries =
     map (\<lambda>(i, entry). stamped tls i (change_message entry)) (enumerate k entries)"
  by (induction entries arbitrary: k) auto

lemma change_lines_append:
  "change_lines tls k (xs @ ys) = change_lines tls k xs @ change_lines tls (k + length xs) ys"
  by (induction xs arbitrary: k) auto

lemma ngOnChanges_pushed:
  "pushed (state_of (ngOnChanges tls changes s)) =
     pushed s @ stamped tls (clock s) ''#2. ngOnChanges: Input properties changed''
       # change_lines tls (Suc (clock s)) (takeWhile (\<lambda>e. \<not> throws e) (for_in changes))"
  by (simp add: ngOnChanges_def loop_pushed addLog_pushed addLog_clock)

lemma ngOnChanges_returned:
  "returned (ngOnChanges tls changes s) = (\<not> list_ex throws (for_in changes))"
  by (simp add: ngOnChanges_def loop_returned)

lemma ngOnChanges_logs:
  "buffered s \<Longrightarrow>
   logs (state_of (ngOnChanges tls changes s)) =
     lastn 50 (logs s @ stamped tls (clock s) ''#2. ngOnChanges: Input properties changed''
       # change_lines tls (Suc (clock s)) (takeWhile (\<lambda>e. \<not> throws e) (for_in changes)))"
  by (rule buffered_extend) (simp_all add: buffered_handlers ngOnChanges_pushed)

lemma addLog_logs_lastn:
  "length (logs s) \<le> 50 \<Longrightarrow> logs (addLog tls m s) = lastn 50 (logs s @ [stamped tls (clock s) m])"
  by (simp add: addLog_logs lastn_snoc lastn_short)

lemma pushed_upd:
  "pushed (s\<lparr>checkCount := a\<rparr>) = pushed s"
  "pushed (s\<lparr>contentCheckCount := a\<rparr>) = pushed s"
  "pushed (s\<lparr>viewCheckCount := a\<rparr>) = pushed s"
  "pushed (s\<lparr>counter := b\<rparr>) = pushed s"
  by (simp_all add: pushed_def)

lemma ngOnDestroy_pushed:
  "pushed (ngOnDestroy tls s) =
     pushed s @ [stamped tls (clock s) ''#9. ngOnDestroy: Component is being destroyed'']"
proof -
  have "pushed (ngOnDestroy tls s) =
          pushed (addLog tls ''#9. ngOnDestroy: Component is being destroyed'' s)"
    by (simp add: ngOnDestroy_def Let_def pushed_def)
  then show ?thesis by (simp add: addLog_pushed)
qed

lemma ngDoCheck_pushed:
  "pushed (ngDoCheck tls s) =
     (if Suc (checkCount s) \<le> 5 \<or> Suc (checkCount s) mod 10 = 0
      then pushed s @ [stamped tls (clock s)
             (''#4. ngDoCheck: Change detection run #'' @ num_to_string (Suc (checkCount s)))]
      else pushed s)"
  by (simp add: ngDoCheck_def Let_def addLog_pushed pushed_upd)

lemma ngAfterContentChecked_pushed:
  "pushed (ngAfterContentChecked tls s) =
     (if Suc (contentCheckCount s) \<le> 3 \<or> Suc (contentCheckCount s) mod 10 = 0
      then pushed s @ [stamped tls (clock s)
             (''#6. ngAfterContentChecked: Content checked #''
                @ num_to_string (Suc (contentCheckCount s)))]
      else pushed s)"
  by (simp add: ngAfterContentChecked_def Let_def addLog_pushed pushed_upd)

lemma ngAfterViewChecked_pushed:
  "pushed (ngAfterViewChecked tls s) =
     (if Suc (viewCheckCount s) \<le> 3 \<or> Suc (viewCheckCount s) mod 10 = 0
      then pushed s @ [stamped tls (clock s)
             (''#8. ngAfterViewChecked: View checked #''
                @ num_to_string (Suc (viewCheckCount s)))]
      else pushed s)"
  by (simp add: ngAfterViewChecked_def Let_def addLog_pushed pushed_upd)

lemma deliver_checkCount:
  "checkCount (state_of (deliver tls c s)) = checkCount s + (if c = NgDoCheck then 1 else 0)"
  by (cases c)
     (simp_all add: ngOnChanges_def ngOnInit_def ngDoCheck_def ngAfterContentInit_def
        ngAfterContentChecked_def ngAfterViewInit_def ngAfterViewChecked_def ngOnDestroy_def
        incrementCounter_def Let_def addLog_fields loop_fields)

lemma deliver_contentCheckCount:
  "contentCheckCount (state_of (deliver tls c s)) =
     contentCheckCount s + (if c = NgAfterContentChecked then 1 else 0)"
  by (cases c)
     (simp_all add: ngOnChanges_def ngOnInit_def ngDoCheck_def ngAfterContentInit_def
        ngAfterContentChecked_def ngAfterViewInit_def ngAfterViewChecked_def ngOnDestroy_def
        incrementCounter_def Let_def addLog_fields loop_fields)

lemma deliver_viewCheckCount:
  "viewCheckCount (state_of (deliver tls c s)) =
     viewCheckCount s + (if c = NgAfterViewChecked then 1 else 0)"
  by (cases c)
     (simp_all add: ngOnChanges_def ngOnInit_def ngDoCheck_def ngAfterContentInit_def
        ngAfterContentChecked_def ngAfterViewInit_def ngAfterViewChecked_def ngOnDestroy_def
        incrementCounter_def Let_def addLog_fields loop_fields)

lemma run_checkCount: "checkCount (run tls cs s) = checkCount s + occurrences NgDoCheck cs"
  by (induction cs arbitrary: s) (simp_all add: occurrences_def deliver_checkCount)

lemma run_contentCheckCount:
  "contentCheckCount (run tls cs s) = contentCheckCount s + occurrences NgAfterContentChecked cs"
  by (induction cs arbitrary: s) (simp_all add: occurrences_def deliver_contentCheckCount)

lemma run_viewCheckCount:
  "viewCheckCount (run tls cs s) = viewCheckCount s + occurrences NgAfterViewChecked cs"
  by (induction cs arbitrary: s) (simp_all add: occurrences_def deliver_viewCheckCount)

lemma constructor_counts:
  "checkCount (constructor tls) = 0"
  "contentCheckCount (constructor tls) = 0"
  "viewCheckCount (constructor tls) = 0"
  by (simp_all add: constructor_def addLog_fields fresh_def)

lemma ngDoCheck_checkCount: "checkCount (ngDoCheck tls s) = Suc (checkCount s)"
  by (simp add: ngDoCheck_def Let_def addLog_fields)

section \<open>Entries appended by one call\<close>

lemma new_entries_eq:
  assumes "buffered s" and "buffered s'" and p: "pushed s' = pushed s @ new"
  shows "new_entries s s' = new"
proof -
  have l: "logs s' = lastn 50 (logs s @ new)"
    using assms by (rule buffered_extend)
  have d: "drop (length (pushed s)) (pushed s') = new"
    by (simp add: p)
  show ?thesis
    unfolding new_entries_def Let_def d using p l by simp
qed

lemma ngOnInit_pushed:
  "pushed (ngOnInit tls s) =
     pushed s @ [stamped tls (clock s) ''#3. ngOnInit: Component initialized (called once)'']"
  by (simp add: ngOnInit_def addLog_pushed)

lemma new_entries_ngOnInit:
  "buffered s \<Longrightarrow>
   new_entries s (ngOnInit tls s) =
     [stamped tls (clock s) ''#3. ngOnInit: Component initialized (called once)'']"
  by (rule new_entries_eq) (simp_all add: buffered_handlers ngOnInit_pushed)

lemma new_entries_ngDoCheck:
  "buffered s \<Longrightarrow>
   new_entries s (ngDoCheck tls s) =
     (if Suc (checkCount s) \<le> 5 \<or> Suc (checkCount s) mod 10 = 0
      then [stamped tls (clock s)
             (''#4. ngDoCheck: Change detection run #'' @ num_to_string (Suc (checkCount s)))]
      else [])"
  by (rule new_entries_eq) (simp_all add: buffered_handlers ngDoCheck_pushed)

section \<open>Counting sampled lines\<close>

lemma sample5_step:
  "min (Suc k) 5 + Suc k div 10 =
     min k 5 + k div 10 + (if Suc k \<le> 5 \<or> Suc k mod 10 = 0 then 1 else 0)"
proof (cases "Suc k \<le> 5")
  case True
  then show ?thesis by simp
next
  case False
  then show ?thesis by (simp add: div_Suc)
qed

lemma logged_by_DoCheck:
  "buffered s \<Longrightarrow>
   min (checkCount s) 5 + checkCount s div 10 + logged_by (\<lambda>c. c = NgDoCheck) tls cs s =
     min (checkCount s + occurrences NgDoCheck cs) 5
       + (checkCount s + occurrences NgDoCheck cs) div 10"
proof (induction cs arbitrary: s)
  case Nil
  show ?case by (simp add: occurrences_def)
next
  case (Cons c cs)
  have b: "buffered (state_of (deliver tls c s))"
    using Cons.prems by (rule buffered_deliver)
  show ?case
  proof (cases "c = NgDoCheck")
    case True
    have step: "length (new_entries s (ngDoCheck tls s)) =
        (if Suc (checkCount s) \<le> 5 \<or> Suc (checkCount s) mod 10 = 0 then 1 else 0)"
      using Cons.prems by (simp add: new_entries_ngDoCheck)
    have cc: "checkCount (ngDoCheck tls s) = Suc (checkCount s)"
      by (rule ngDoCheck_checkCount)
    have occ: "occurrences NgDoCheck (c # cs) = Suc (occurrences NgDoCheck cs)"
      using True by (simp add: occurrences_def)
    from Cons.IH [OF b] sample5_step [of "checkCount s"] step cc occ True
    show ?thesis by simp
  next
    case False
    have cc: "checkCount (state_of (deliver tls c s)) = checkCount s"
      using False by (simp add: deliver_checkCount)
    have occ: "occurrences NgDoCheck (c # cs) = occurrences NgDoCheck cs"
      using False by (simp add: occurrences_def)
    from Cons.IH [OF b] cc occ False show ?thesis by simp
  qed
qed

lemma run_DoCheck_length:
  "length (pushed (run tls (replicate n NgDoCheck) s)) + (min (checkCount s) 5 + checkCount s div 10) =
     length (pushed s) + (min (checkCount s + n) 5 + (checkCount s + n) div 10)"
proof (induction n arbitrary: s)
  case 0
  show ?case by simp
next
  case (Suc n)
  have len: "length (pushed (ngDoCheck tls s)) =
      length (pushed s) + (if Suc (checkCount s) \<le> 5 \<or> Suc (checkCount s) mod 10 = 0 then 1 else 0)"
    by (simp add: ngDoCheck_pushed)
  from Suc.IH [of "ngDoCheck tls s"] len sample5_step [of "checkCount s"]
  show ?case by (simp add: ngDoCheck_checkCount)
qed

lemma logged_by_OnInit:
  "buffered s \<Longrightarrow> logged_by (\<lambda>c. c = NgOnInit) tls cs s = occurrences NgOnInit cs"
proof (induction cs arbitrary: s)
  case Nil
  show ?case by (simp add: occurrences_def)
next
  case (Cons c cs)
  have b: "buffered (state_of (deliver tls c s))"
    using Cons.prems by (rule buffered_deliver)
  from Cons.IH [OF b] Cons.prems show ?case
    by (simp add: occurrences_def new_entries_ngOnInit)
qed

section \<open>Decimal numerals\<close>

lemma digit_char:
  assumes "d < 10"
  shows "is_digit (''0123456789'' ! d)"
    and "(of_char (''0123456789'' ! d) :: nat) - 48 = d"
    and "d \<noteq> 0 \<Longrightarrow> ''0123456789'' ! d \<noteq> CHR ''0''"
proof -
  from assms have "d \<in> {0, 1, 2, 3, 4, 5, 6, 7, 8, 9}" by auto
  then show "is_digit (''0123456789'' ! d)"
    and "(of_char (''0123456789'' ! d) :: nat) - 48 = d"
    and "d \<noteq> 0 \<Longrightarrow> ''0123456789'' ! d \<noteq> CHR ''0''"
    by (auto simp add: is_digit_def)
qed

lemma dec_value_snoc: "dec_value (s @ [c]) = 10 * dec_value s + ((of_char c :: nat) - 48)"
  by (simp add: dec_value_def)

lemma num_to_string_digit: "n < 10 \<Longrightarrow> num_to_string n = [''0123456789'' ! n]"
  by (simp add: num_to_string.simps)

lemma num_to_string_rec:
  "\<not> n < 10 \<Longrightarrow> num_to_string n = num_to_string (n div 10) @ [''0123456789'' ! (n mod 10)]"
  by (subst num_to_string.simps) simp

lemma num_to_string_nonempty: "num_to_string n \<noteq> []"
  by (cases "n < 10") (simp_all add: num_to_string_digit num_to_string_rec)

lemma num_to_string_digits: "list_all is_digit (num_to_string n)"
proof (induction n rule: num_to_string.induct)
  case (1 n)
  show ?case
  proof (cases "n < 10")
    case True
    then show ?thesis by (simp add: num_to_string_digit digit_char)
  next
    case False
    with "1" show ?thesis by (simp add: num_to_string_rec digit_char)
  qed
qed

lemma dec_value_num_to_string: "dec_value (num_to_string n) = n"
proof (induction n rule: num_to_string.induct)
  case (1 n)
  show ?case
  proof (cases "n < 10")
    case True
    then show ?thesis by (simp add: num_to_string_digit dec_value_def digit_char)
  next
    case False
    with "1" show ?thesis by (simp add: num_to_string_rec dec_value_snoc digit_char)
  qed
qed

lemma num_to_string_no_leading_zero: "0 < n \<Longrightarrow> hd (num_to_string n) \<noteq> CHR ''0''"
proof (induction n rule: num_to_string.induct)
  case (1 n)
  show ?case
  proof (cases "n < 10")
    case True
    then have "num_to_string n = [''0123456789'' ! n]" by (rule num_to_string_digit)
    moreover from True "1.prems" have "''0123456789'' ! n \<noteq> CHR ''0''"
      by (intro digit_char(3)) simp_all
    ultimately show ?thesis by (metis list.sel(1))
  next
    case False
    then have "0 < n div 10" by simp
    with "1.IH" False have "hd (num_to_string (n div 10)) \<noteq> CHR ''0''" by simp
    with False show ?thesis by (simp add: num_to_string_rec num_to_string_nonempty)
  qed
qed

section \<open>Enumeration of a changeset\<close>

lemma assign_new: "k \<notin> fst ` set ps \<Longrightarrow> assign k v ps = ps @ [(k, v)]"
  by (induction ps) auto

lemma object_of_distinct_aux:
  "distinct (map fst (acc @ members)) \<Longrightarrow>
     foldl (\<lambda>obj (k, v). assign k v obj) acc members = acc @ members"
proof (induction members arbitrary: acc)
  case Nil
  show ?case by simp
next
  case (Cons m members)
  obtain k v where m: "m = (k, v)" by (cases m)
  from Cons.prems have new: "k \<notin> fst ` set acc" by (auto simp add: m)
  from Cons.prems have "distinct (map fst ((acc @ [(k, v)]) @ members))" by (simp add: m)
  from Cons.IH [OF this] new show ?case by (simp add: m assign_new)
qed

lemma object_of_distinct: "distinct (map fst members) \<Longrightarrow> object_of members = members"
  using object_of_distinct_aux [of "[]" members] by (simp add: object_of_def)

lemma for_in_insertion_order:
  assumes "distinct (map fst members)" and "\<not> list_ex is_array_index (map fst members)"
  shows "for_in members = members"
proof -
  from assms(2) have none: "\<And>k v. (k, v) \<in> set members \<Longrightarrow> \<not> is_array_index k"
    by (force simp add: list_ex_iff)
  then have "filter (\<lambda>(k, v). is_array_index k) members = []"
    and "filter (\<lambda>(k, v). \<not> is_array_index k) members = members"
    by (auto simp add: filter_empty_conv filter_id_conv)
  with assms(1) show ?thesis by (simp add: for_in_def object_of_distinct)
qed

lemma for_in_properties:
  "set (for_in members) = set (object_of members)"
  "length (for_in members) = length (object_of members)"
proof -
  show "set (for_in members) = set (object_of members)"
    by (auto simp add: for_in_def Let_def)
  show "length (for_in members) = length (object_of members)"
    using sum_length_filter_compl [of "\<lambda>(k, v). is_array_index k" "object_of members"]
    by (simp add: for_in_def Let_def case_prod_unfold)
qed

section \<open>Further facts about the handlers\<close>

lemma ngDoCheck_logs:
  "logs (ngDoCheck tls s) =
     (if Suc (checkCount s) \<le> 5 \<or> Suc (checkCount s) mod 10 = 0
      then (let line = stamped tls (clock s)
                  (''#4. ngDoCheck: Change detection run #'' @ num_to_string (Suc (checkCount s)))
            in if length (logs s) < 50 then logs s @ [line] else tl (logs s) @ [line])
      else logs s)"
  by (simp add: ngDoCheck_def Let_def addLog_logs)

lemma ngAfterContentChecked_logs:
  "logs (ngAfterContentChecked tls s) =
     (if Suc (contentCheckCount s) \<le> 3 \<or> Suc (contentCheckCount s) mod 10 = 0
      then (let line = stamped tls (clock s)
                  (''#6. ngAfterContentChecked: Content checked #''
                     @ num_to_string (Suc (contentCheckCount s)))
            in if length (logs s) < 50 then logs s @ [line] else tl (logs s) @ [line])
      else logs s)"
  by (simp add: ngAfterContentChecked_def Let_def addLog_logs)

lemma ngAfterViewChecked_logs:
  "logs (ngAfterViewChecked tls s) =
     (if Suc (viewCheckCount s) \<le> 3 \<or> Suc (viewCheckCount s) mod 10 = 0
      then (let line = stamped tls (clock s)
                  (''#8. ngAfterViewChecked: View checked #''
                     @ num_to_string (Suc (viewCheckCount s)))
            in if length (logs s) < 50 then logs s @ [line] else tl (logs s) @ [line])
      else logs s)"
  by (simp add: ngAfterViewChecked_def Let_def addLog_logs)

lemma for_in_name:
  "for_in [(''name'', entry)] = [(''name'', entry)]"
  by (simp add: for_in_def object_of_def is_array_index_def is_digit_def)

text \<open>
  The cap is reached: fifty \<open>ngOnInit\<close> calls after construction leave exactly the fifty
  \<open>ngOnInit\<close> lines in the buffer; the constructor line, the oldest, is gone.
\<close>

lemma run_OnInit_pushed:
  "pushed (run tls (replicate n NgOnInit) s) =
     pushed s @ map (\<lambda>i. stamped tls (clock s + i)
                         ''#3. ngOnInit: Component initialized (called once)'') [0..<n]"
proof (induction n arbitrary: s)
  case 0
  show ?case by simp
next
  case (Suc n)
  have "pushed (run tls (replicate (Suc n) NgOnInit) s) =
      pushed (run tls (replicate n NgOnInit) (ngOnInit tls s))"
    by simp
  also have "\<dots> = pushed (ngOnInit tls s) @ map (\<lambda>i. stamped tls (clock (ngOnInit tls s) + i)
                         ''#3. ngOnInit: Component initialized (called once)'') [0..<n]"
    by (rule Suc.IH)
  finally show ?case
    by (simp add: ngOnInit_def addLog_pushed addLog_clock map_upt_Suc del: upt_Suc)
qed

lemma oldest_entry_evicted:
  "logs (run tls (replicate 50 NgOnInit) (constructor tls)) =
     map (\<lambda>i. stamped tls (Suc i) ''#3. ngOnInit: Component initialized (called once)'') [0..<50]"
proof -
  have "buffered (run tls (replicate 50 NgOnInit) (constructor tls))"
    by (simp add: buffered_run buffered_constructor)
  moreover have "pushed fresh = []" and "clock fresh = 0"
    by (simp_all add: fresh_def pushed_def)
  then have "pushed (constructor tls) = [stamped tls 0 ''#1. Constructor: Component instance created'']"
    and "clock (constructor tls) = Suc 0"
    by (simp_all add: constructor_def addLog_pushed addLog_clock)
  ultimately show ?thesis
    by (simp add: buffered_def run_OnInit_pushed lastn_def del: upt_Suc)
qed

section \<open>Concrete runs\<close>

lemma constructor_pushed:
  "pushed (constructor tls) = [stamped tls 0 ''#1. Constructor: Component instance created'']"
proof -
  have "pushed fresh = []" and "clock fresh = 0"
    by (simp_all add: fresh_def pushed_def)
  then show ?thesis by (simp add: constructor_def addLog_pushed)
qed

lemma ten_checks:
  "replicate 10 NgDoCheck = [NgDoCheck, NgDoCheck, NgDoCheck, NgDoCheck, NgDoCheck,
      NgDoCheck, NgDoCheck, NgDoCheck, NgDoCheck, NgDoCheck]"
  by (simp add: eval_nat_numeral)

lemma num_to_string_10: "num_to_string 10 = ''10''"
  by (simp add: num_to_string.simps)

lemma num_to_string_Suc10:
  "num_to_string (Suc (Suc (Suc (Suc (Suc (Suc (Suc (Suc (Suc (Suc 0)))))))))) = ''10''"
proof -
  have e: "Suc (Suc (Suc (Suc (Suc (Suc (Suc (Suc (Suc (Suc 0))))))))) = 10" by simp
  show ?thesis unfolding e by (rule num_to_string_10)
qed

lemma constructor_noon:
  "constructor noon =
     \<lparr>name = ''Default Component'', counter = 0,
      logs = [''[12:00:00 PM] #1. Constructor: Component instance created''],
      checkCount = 0, contentCheckCount = 0, viewCheckCount = 0,
      console = [''[12:00:00 PM] #1. Constructor: Component instance created''], clock = 1\<rparr>"
  by (simp add: constructor_def fresh_def addLog_def Let_def noon_def)

lemma for_in_index_first:
  "for_in [(''b'', x), (''1'', y)] = [(''1'', y), (''b'', x)]"
  by (simp add: for_in_def object_of_def is_array_index_def is_digit_def dec_value_def)

lemma for_in_name_title:
  "for_in [(''name'', x), (''title'', y)] = [(''name'', x), (''title'', y)]"
  by (simp add: for_in_def object_of_def is_array_index_def is_digit_def)

lemma takeWhile_all: "\<not> list_ex P xs \<Longrightarrow> takeWhile (\<lambda>x. \<not> P x) xs = xs"
  by (simp add: list_ex_iff)

lemma nine_increments:
  "replicate 9 IncrementCounter = [IncrementCounter, IncrementCounter, IncrementCounter,
      IncrementCounter, IncrementCounter, IncrementCounter, IncrementCounter, IncrementCounter,
      IncrementCounter]"
  by (simp add: eval_nat_numeral)

section \<open>The claims\<close>

text \<open>
  C1.  After every sequence of calls on a freshly constructed recorder the buffer has at
  most 50 entries and consists of the most recent (at most 50) lines pushed so far, in the
  order in which they were pushed; a further push appends the new line and, when the
  buffer is full, removes exactly its oldest entry and keeps the others in order.
\<close>

theorem log_buffer_bounded_fifo:
  "(let s = run tls cs (constructor tls) in
      length (logs s) \<le> 50 \<and>
      logs s = lastn 50 (pushed s) \<and>
      (\<forall>m. logs (addLog tls m s) =
             (if length (logs s) < 50 then logs s @ [stamped tls (clock s) m]
              else tl (logs s) @ [stamped tls (clock s) m])))"
proof -
  have b: "buffered (run tls cs (constructor tls))"
    by (simp add: buffered_run buffered_constructor)
  then have "logs (run tls cs (constructor tls)) = lastn 50 (pushed (run tls cs (constructor tls)))"
    by (simp add: buffered_def)
  moreover from this have "length (logs (run tls cs (constructor tls))) \<le> 50"
    by (simp add: lastn_length)
  ultimately show ?thesis by (simp add: Let_def addLog_logs)
qed

text \<open>
  C2, as stated, fails: after construction and ten \<open>ngDoCheck\<close> calls the buffer holds six
  \<open>ngDoCheck\<close> entries (occurrences 1 to 5 and occurrence 10), while
  \<open>min(N,5) + floor(max(N-5,0)/10)\<close> is 5 at \<open>N = 10\<close>.
\<close>

theorem doCheck_count_formula_counterexample:
  "logs (run noon (replicate 10 NgDoCheck) (constructor noon)) =
     [''[12:00:00 PM] #1. Constructor: Component instance created'',
      ''[12:00:00 PM] #4. ngDoCheck: Change detection run #1'',
      ''[12:00:00 PM] #4. ngDoCheck: Change detection run #2'',
      ''[12:00:00 PM] #4. ngDoCheck: Change detection run #3'',
      ''[12:00:00 PM] #4. ngDoCheck: Change detection run #4'',
      ''[12:00:00 PM] #4. ngDoCheck: Change detection run #5'',
      ''[12:00:00 PM] #4. ngDoCheck: Change detection run #10''] \<and>
   logged_by (\<lambda>c. c = NgDoCheck) noon (replicate 10 NgDoCheck) (constructor noon) = 6 \<and>
   logged_by (\<lambda>c. c = NgDoCheck) noon (replicate 10 NgDoCheck) (constructor noon) \<noteq>
     min 10 5 + (max (10 - 5) 0) div 10"
proof -
  have l: "logs (run noon (replicate 10 NgDoCheck) (constructor noon)) =
     [''[12:00:00 PM] #1. Constructor: Component instance created'',
      ''[12:00:00 PM] #4. ngDoCheck: Change detection run #1'',
      ''[12:00:00 PM] #4. ngDoCheck: Change detection run #2'',
      ''[12:00:00 PM] #4. ngDoCheck: Change detection run #3'',
      ''[12:00:00 PM] #4. ngDoCheck: Change detection run #4'',
      ''[12:00:00 PM] #4. ngDoCheck: Change detection run #5'',
      ''[12:00:00 PM] #4. ngDoCheck: Change detection run #10'']"
    unfolding ten_checks
    by (simp add: constructor_def fresh_def addLog_def ngDoCheck_def Let_def noon_def
          num_to_string_digit num_to_string_Suc10)
  have "logged_by (\<lambda>c. c = NgDoCheck) noon (replicate 10 NgDoCheck) (constructor noon) = 6"
    using logged_by_DoCheck [OF buffered_constructor, of noon noon "replicate 10 NgDoCheck"]
    by (simp add: constructor_counts occurrences_def)
  with l show ?thesis by simp
qed

text \<open>
  C2, amended.  In every sequence of calls on a freshly constructed recorder, the number of
  entries appended to the log buffer by its \<open>ngDoCheck\<close> calls is \<open>min(N,5) + floor(N/10)\<close>,
  where \<open>N\<close> is the number of \<open>ngDoCheck\<close> calls in the sequence.  Read off the buffer
  itself: after construction and \<open>N\<close> \<open>ngDoCheck\<close> calls the buffer has
  \<open>1 + min(N,5) + floor(N/10)\<close> entries, capped at 50.
\<close>

theorem doCheck_count:
  "logged_by (\<lambda>c. c = NgDoCheck) tls cs (constructor tls) =
     min (occurrences NgDoCheck cs) 5 + occurrences NgDoCheck cs div 10 \<and>
   length (logs (run tls (replicate N NgDoCheck) (constructor tls))) =
     min 50 (1 + (min N 5 + N div 10))"
proof -
  have count: "logged_by (\<lambda>c. c = NgDoCheck) tls cs (constructor tls) =
     min (occurrences NgDoCheck cs) 5 + occurrences NgDoCheck cs div 10"
    using logged_by_DoCheck [OF buffered_constructor, of tls tls cs]
    by (simp add: constructor_counts)
  have "buffered (run tls (replicate N NgDoCheck) (constructor tls))"
    by (simp add: buffered_run buffered_constructor)
  then have "length (logs (run tls (replicate N NgDoCheck) (constructor tls))) =
      min 50 (length (pushed (run tls (replicate N NgDoCheck) (constructor tls))))"
    by (simp add: buffered_def lastn_length)
  moreover have "length (pushed (constructor tls)) = 1"
    by (simp add: constructor_pushed)
  ultimately have "length (logs (run tls (replicate N NgDoCheck) (constructor tls))) =
      min 50 (1 + (min N 5 + N div 10))"
    using run_DoCheck_length [of tls N "constructor tls"] by (simp add: constructor_counts)
  with count show ?thesis by simp
qed

text \<open>
  C3, as stated, fails: \<open>ngDoCheck\<close> delivered after \<open>ngOnDestroy\<close> returns normally and
  appends its line to the buffer.
\<close>

theorem after_destroy_counterexample:
  "logs (state_of (deliver noon NgDoCheck (ngOnDestroy noon (constructor noon)))) =
     logs (ngOnDestroy noon (constructor noon))
       @ [''[12:00:00 PM] #4. ngDoCheck: Change detection run #1''] \<and>
   logs (state_of (deliver noon NgDoCheck (ngOnDestroy noon (constructor noon)))) \<noteq>
     logs (ngOnDestroy noon (constructor noon)) \<and>
   returned (deliver noon NgDoCheck (ngOnDestroy noon (constructor noon)))"
  by (simp add: constructor_def fresh_def addLog_def ngOnDestroy_def ngDoCheck_def Let_def
        noon_def num_to_string_digit)

text \<open>
  C3, amended.  In a state reached at any time after \<open>ngOnDestroy\<close>, every handler does
  to the buffer what it does in any other state: \<open>ngOnInit\<close>, \<open>ngAfterContentInit\<close>,
  \<open>ngAfterViewInit\<close>, \<open>ngOnDestroy\<close> and \<open>incrementCounter\<close> append their line, the three
  sampled check hooks append theirs when their own counter passes the filter, and
  \<open>ngOnChanges\<close> appends the summary line and the lines of the entries it processes.  Each
  append drops the oldest entries beyond 50.  No call fails because of the earlier
  \<open>ngOnDestroy\<close>: \<open>ngOnChanges\<close> throws exactly when an entry of its changeset does.
\<close>

theorem after_destroy_still_recorded:
  "(let d = run tls cs (ngOnDestroy tls (run tls cs0 (constructor tls))) in
      logs (ngOnInit tls d) =
        lastn 50 (logs d @ [stamped tls (clock d)
           ''#3. ngOnInit: Component initialized (called once)'']) \<and>
      logs (ngAfterContentInit tls d) =
        lastn 50 (logs d @ [stamped tls (clock d)
           ''#5. ngAfterContentInit: Content projection initialized (called once)'']) \<and>
      logs (ngAfterViewInit tls d) =
        lastn 50 (logs d @ [stamped tls (clock d)
           ''#7. ngAfterViewInit: View initialized (called once)'']) \<and>
      logs (ngOnDestroy tls d) =
        lastn 50 (logs d @ [stamped tls (clock d)
           ''#9. ngOnDestroy: Component is being destroyed'']) \<and>
      logs (incrementCounter tls d) =
        lastn 50 (logs d @ [stamped tls (clock d)
           (''User Action: Counter incremented to ''
              @ num_to_string (post_increment (counter d)))]) \<and>
      logs (ngDoCheck tls d) =
        (if Suc (checkCount d) \<le> 5 \<or> Suc (checkCount d) mod 10 = 0
         then lastn 50 (logs d @ [stamped tls (clock d)
                (''#4. ngDoCheck: Change detection run #''
                   @ num_to_string (Suc (checkCount d)))])
         else logs d) \<and>
      logs (ngAfterContentChecked tls d) =
        (if Suc (contentCheckCount d) \<le> 3 \<or> Suc (contentCheckCount d) mod 10 = 0
         then lastn 50 (logs d @ [stamped tls (clock d)
                (''#6. ngAfterContentChecked: Content checked #''
                   @ num_to_string (Suc (contentCheckCount d)))])
         else logs d) \<and>
      logs (ngAfterViewChecked tls d) =
        (if Suc (viewCheckCount d) \<le> 3 \<or> Suc (viewCheckCount d) mod 10 = 0
         then lastn 50 (logs d @ [stamped tls (clock d)
                (''#8. ngAfterViewChecked: View checked #''
                   @ num_to_string (Suc (viewCheckCount d)))])
         else logs d) \<and>
      logs (state_of (ngOnChanges tls changes d)) =
        lastn 50 (logs d
          @ stamped tls (clock d) ''#2. ngOnChanges: Input properties changed''
          # map (\<lambda>(i, entry). stamped tls i (change_message entry))
              (enumerate (Suc (clock d)) (takeWhile (\<lambda>e. \<not> throws e) (for_in changes)))) \<and>
      returned (ngOnChanges tls changes d) = (\<not> list_ex throws (for_in changes)))"
proof -
  define d where "d = run tls cs (ngOnDestroy tls (run tls cs0 (constructor tls)))"
  have b: "buffered d"
    unfolding d_def
    by (intro buffered_run buffered_handlers buffered_constructor)
  then have len: "length (logs d) \<le> 50" by (rule buffered_length)
  have push: "logs (addLog tls m d) = lastn 50 (logs d @ [stamped tls (clock d) m])" for m
    using len by (rule addLog_logs_lastn)
  have 1: "logs (ngOnInit tls d) =
        lastn 50 (logs d @ [stamped tls (clock d)
           ''#3. ngOnInit: Component initialized (called once)''])"
    by (simp add: ngOnInit_def push)
  have 2: "logs (ngAfterContentInit tls d) =
        lastn 50 (logs d @ [stamped tls (clock d)
           ''#5. ngAfterContentInit: Content projection initialized (called once)''])"
    by (simp add: ngAfterContentInit_def push)
  have 3: "logs (ngAfterViewInit tls d) =
        lastn 50 (logs d @ [stamped tls (clock d)
           ''#7. ngAfterViewInit: View initialized (called once)''])"
    by (simp add: ngAfterViewInit_def push)
  have 4: "logs (ngOnDestroy tls d) =
        lastn 50 (logs d @ [stamped tls (clock d)
           ''#9. ngOnDestroy: Component is being destroyed''])"
    by (simp add: ngOnDestroy_def Let_def push)
  have 5: "logs (incrementCounter tls d) =
        lastn 50 (logs d @ [stamped tls (clock d)
           (''User Action: Counter incremented to ''
              @ num_to_string (post_increment (counter d)))])"
    by (simp add: incrementCounter_def Let_def addLog_logs_lastn len)
  have 6: "logs (ngDoCheck tls d) =
        (if Suc (checkCount d) \<le> 5 \<or> Suc (checkCount d) mod 10 = 0
         then lastn 50 (logs d @ [stamped tls (clock d)
                (''#4. ngDoCheck: Change detection run #''
                   @ num_to_string (Suc (checkCount d)))])
         else logs d)"
    by (simp add: ngDoCheck_def Let_def addLog_logs_lastn len)
  have 7: "logs (ngAfterContentChecked tls d) =
        (if Suc (contentCheckCount d) \<le> 3 \<or> Suc (contentCheckCount d) mod 10 = 0
         then lastn 50 (logs d @ [stamped tls (clock d)
                (''#6. ngAfterContentChecked: Content checked #''
                   @ num_to_string (Suc (contentCheckCount d)))])
         else logs d)"
    by (simp add: ngAfterContentChecked_def Let_def addLog_logs_lastn len)
  have 8: "logs (ngAfterViewChecked tls d) =
        (if Suc (viewCheckCount d) \<le> 3 \<or> Suc (viewCheckCount d) mod 10 = 0
         then lastn 50 (logs d @ [stamped tls (clock d)
                (''#8. ngAfterViewChecked: View checked #''
                   @ num_to_string (Suc (viewCheckCount d)))])
         else logs d)"
    by (simp add: ngAfterViewChecked_def Let_def addLog_logs_lastn len)
  have 9: "logs (state_of (ngOnChanges tls changes d)) =
        lastn 50 (logs d
          @ stamped tls (clock d) ''#2. ngOnChanges: Input properties changed''
          # map (\<lambda>(i, entry). stamped tls i (change_message entry))
              (enumerate (Suc (clock d)) (takeWhile (\<lambda>e. \<not> throws e) (for_in changes))))"
    using ngOnChanges_logs [OF b, of tls changes] by (simp add: change_lines_enumerate)
  have 10: "returned (ngOnChanges tls changes d) = (\<not> list_ex throws (for_in changes))"
    by (rule ngOnChanges_returned)
  from 1 2 3 4 5 6 7 8 9 10 show ?thesis
    unfolding Let_def d_def [symmetric] by (intro conjI)
qed

text \<open>
  C4, as stated, fails: a second \<open>ngOnInit\<close> on the same instance takes effect and appends
  a second entry to the buffer.
\<close>

theorem second_onInit_counterexample:
  "logs (ngOnInit noon (ngOnInit noon (constructor noon))) =
     [''[12:00:00 PM] #1. Constructor: Component instance created'',
      ''[12:00:00 PM] #3. ngOnInit: Component initialized (called once)'',
      ''[12:00:00 PM] #3. ngOnInit: Component initialized (called once)''] \<and>
   logs (ngOnInit noon (ngOnInit noon (constructor noon))) \<noteq>
     logs (ngOnInit noon (constructor noon))"
  by (simp add: constructor_def fresh_def addLog_def ngOnInit_def Let_def noon_def)

text \<open>
  C4, amended.  Every \<open>ngOnInit\<close> call, the first as well as any later one, appends
  exactly one entry to the buffer: a sequence of calls with \<open>n\<close> \<open>ngOnInit\<close> calls has \<open>n\<close>
  entries appended by them, and after any sequence of calls one further call appends one
  entry and two further calls in a row append two.
\<close>

theorem every_onInit_recorded:
  "(let s = run tls cs (constructor tls) in
      logged_by (\<lambda>c. c = NgOnInit) tls cs (constructor tls) = occurrences NgOnInit cs \<and>
      logs (ngOnInit tls s) =
        lastn 50 (logs s @ [stamped tls (clock s)
           ''#3. ngOnInit: Component initialized (called once)'']) \<and>
      logs (ngOnInit tls (ngOnInit tls s)) =
        lastn 50 (logs s
          @ [stamped tls (clock s) ''#3. ngOnInit: Component initialized (called once)'',
             stamped tls (Suc (clock s)) ''#3. ngOnInit: Component initialized (called once)'']))"
proof -
  define s where "s = run tls cs (constructor tls)"
  have b: "buffered s"
    unfolding s_def by (intro buffered_run buffered_constructor)
  have b1: "buffered (ngOnInit tls s)" using b by (rule buffered_handlers)
  have b2: "buffered (ngOnInit tls (ngOnInit tls s))" using b1 by (rule buffered_handlers)
  have 1: "logged_by (\<lambda>c. c = NgOnInit) tls cs (constructor tls) = occurrences NgOnInit cs"
    using buffered_constructor by (rule logged_by_OnInit)
  have 2: "logs (ngOnInit tls s) =
        lastn 50 (logs s @ [stamped tls (clock s)
           ''#3. ngOnInit: Component initialized (called once)''])"
    using b b1 by (rule buffered_extend) (simp add: ngOnInit_pushed)
  have 3: "logs (ngOnInit tls (ngOnInit tls s)) =
        lastn 50 (logs s
          @ [stamped tls (clock s) ''#3. ngOnInit: Component initialized (called once)'',
             stamped tls (Suc (clock s)) ''#3. ngOnInit: Component initialized (called once)''])"
    using b b2 by (rule buffered_extend) (simp add: ngOnInit_def addLog_pushed addLog_clock)
  from 1 2 3 show ?thesis
    unfolding Let_def s_def [symmetric] by (intro conjI)
qed

text \<open>
  C5, as stated, fails in three ways.  For \<open>{name: A -> B}\<close> the summary line is appended
  first and the per-property line after it.  For a changeset written as \<open>{b: ..., 1: ...}\<close>
  the line of \<open>1\<close> is appended before the line of \<open>b\<close>: the enumeration order is not the
  insertion order.  For a changeset whose value is a bigint, \<open>JSON.stringify\<close> throws after
  the summary line and no per-property line is appended.
\<close>

theorem ngOnChanges_order_counterexample:
  "logs (state_of (ngOnChanges noon
           [(''name'', Some \<lparr>previousValue = JStr ''A'', currentValue = JStr ''B'',
                             firstChange = False\<rparr>)]
           (constructor noon))) =
     [''[12:00:00 PM] #1. Constructor: Component instance created'',
      ''[12:00:00 PM] #2. ngOnChanges: Input properties changed'',
      ''[12:00:00 PM] #2. ngOnChanges: - name: '' @ CHR 0x22 # ''A'' @ CHR 0x22 # '' '' @ arrow
         @ '' '' @ CHR 0x22 # ''B'' @ [CHR 0x22]] \<and>
   logs (state_of (ngOnChanges noon
           [(''b'', Some \<lparr>previousValue = JUndefined, currentValue = JStr ''x'',
                          firstChange = True\<rparr>),
            (''1'', Some \<lparr>previousValue = JUndefined, currentValue = JStr ''y'',
                          firstChange = True\<rparr>)]
           (constructor noon))) =
     [''[12:00:00 PM] #1. Constructor: Component instance created'',
      ''[12:00:00 PM] #2. ngOnChanges: Input properties changed'',
      ''[12:00:00 PM] #2. ngOnChanges: - 1: undefined '' @ arrow
         @ '' '' @ CHR 0x22 # ''y'' @ [CHR 0x22],
      ''[12:00:00 PM] #2. ngOnChanges: - b: undefined '' @ arrow
         @ '' '' @ CHR 0x22 # ''x'' @ [CHR 0x22]] \<and>
   ngOnChanges noon
           [(''name'', Some \<lparr>previousValue = JThrows TypeError, currentValue = JStr ''B'',
                             firstChange = False\<rparr>)]
           (constructor noon) =
     Threw TypeError
       \<lparr>name = ''Default Component'', counter = 0,
        logs = [''[12:00:00 PM] #1. Constructor: Component instance created'',
                ''[12:00:00 PM] #2. ngOnChanges: Input properties changed''],
        checkCount = 0, contentCheckCount = 0, viewCheckCount = 0,
        console = [''[12:00:00 PM] #1. Constructor: Component instance created'',
                   ''[12:00:00 PM] #2. ngOnChanges: Input properties changed''],
        clock = 2\<rparr>"
  by (simp add: constructor_noon addLog_def ngOnChanges_def Let_def noon_def
        json_quote_def json_escape_def for_in_name for_in_index_first)

text \<open>
  C5, amended.  For every changeset none of whose entries throws (every entry is an
  object, and \<open>JSON.stringify\<close> returns on both of its values), \<open>ngOnChanges\<close> returns and
  appends to the buffer exactly one summary line first and then exactly one line per
  property, in the order in which \<open>for ... in\<close> enumerates the properties; this is the
  insertion order when the names are distinct and none of them is an array index.
\<close>

theorem ngOnChanges_lines:
  assumes "\<not> list_ex throws (for_in changes)"
  shows "(let s = run tls cs (constructor tls);
              r = ngOnChanges tls changes s;
              lines = stamped tls (clock s) ''#2. ngOnChanges: Input properties changed''
                      # map (\<lambda>(i, entry). stamped tls i (change_message entry))
                          (enumerate (Suc (clock s)) (for_in changes))
          in returned r \<and>
             logs (state_of r) = lastn 50 (logs s @ lines) \<and>
             new_entries s (state_of r) = lines \<and>
             length lines = 1 + length (object_of changes) \<and>
             set (for_in changes) = set (object_of changes) \<and>
             (distinct (map fst changes) \<and> \<not> list_ex is_array_index (map fst changes)
                \<longrightarrow> for_in changes = changes))"
proof -
  define s where "s = run tls cs (constructor tls)"
  define lines where "lines = stamped tls (clock s) ''#2. ngOnChanges: Input properties changed''
                      # map (\<lambda>(i, entry). stamped tls i (change_message entry))
                          (enumerate (Suc (clock s)) (for_in changes))"
  have b: "buffered s"
    unfolding s_def by (intro buffered_run buffered_constructor)
  have b': "buffered (state_of (ngOnChanges tls changes s))"
    using b by (rule buffered_handlers)
  have all: "takeWhile (\<lambda>e. \<not> throws e) (for_in changes) = for_in changes"
    using assms by (rule takeWhile_all)
  have p: "pushed (state_of (ngOnChanges tls changes s)) = pushed s @ lines"
    by (simp add: ngOnChanges_pushed all change_lines_enumerate lines_def)
  have 1: "returned (ngOnChanges tls changes s)"
    using assms by (simp add: ngOnChanges_returned)
  have 2: "logs (state_of (ngOnChanges tls changes s)) = lastn 50 (logs s @ lines)"
    using b b' p by (rule buffered_extend)
  have 3: "new_entries s (state_of (ngOnChanges tls changes s)) = lines"
    using b b' p by (rule new_entries_eq)
  have 4: "length lines = 1 + length (object_of changes)"
    by (simp add: lines_def for_in_properties)
  have 5: "set (for_in changes) = set (object_of changes)"
    by (rule for_in_properties)
  have 6: "distinct (map fst changes) \<and> \<not> list_ex is_array_index (map fst changes)
                \<longrightarrow> for_in changes = changes"
    by (simp add: for_in_insertion_order)
  from 1 2 3 4 5 6 show ?thesis
    unfolding Let_def s_def [symmetric] lines_def [symmetric] by (intro conjI)
qed

text \<open>
  The amended C5 at the changeset \<open>{name: A -> B}\<close>: the summary line, then one line that
  shows the quoted \<open>A\<close> and the quoted \<open>B\<close>.
\<close>

theorem ngOnChanges_lines_witness:
  "\<not> list_ex throws
       (for_in [(''name'', Some \<lparr>previousValue = JStr ''A'', currentValue = JStr ''B'',
                                 firstChange = False\<rparr>)]) \<and>
   returned (ngOnChanges noon
       [(''name'', Some \<lparr>previousValue = JStr ''A'', currentValue = JStr ''B'',
                         firstChange = False\<rparr>)]
       (run noon [] (constructor noon))) \<and>
   new_entries (run noon [] (constructor noon))
     (state_of (ngOnChanges noon
       [(''name'', Some \<lparr>previousValue = JStr ''A'', currentValue = JStr ''B'',
                         firstChange = False\<rparr>)]
       (run noon [] (constructor noon)))) =
     [''[12:00:00 PM] #2. ngOnChanges: Input properties changed'',
      ''[12:00:00 PM] #2. ngOnChanges: - name: '' @ CHR 0x22 # ''A'' @ CHR 0x22 # '' '' @ arrow
         @ '' '' @ CHR 0x22 # ''B'' @ [CHR 0x22]]"
proof -
  have h: "\<not> list_ex throws
       (for_in [(''name'', Some \<lparr>previousValue = JStr ''A'', currentValue = JStr ''B'',
                                 firstChange = False\<rparr>)])"
    by (simp add: for_in_name)
  let ?s = "run noon [] (constructor noon)"
  let ?changes = "[(''name'', Some \<lparr>previousValue = JStr ''A'', currentValue = JStr ''B'',
                                    firstChange = False\<rparr>)]"
  let ?lines = "stamped noon (clock ?s) ''#2. ngOnChanges: Input properties changed''
                      # map (\<lambda>(i, entry). stamped noon i (change_message entry))
                          (enumerate (Suc (clock ?s)) (for_in ?changes))"
  from ngOnChanges_lines [OF h, of noon "[]"]
  have r: "returned (ngOnChanges noon ?changes ?s)"
    and n: "new_entries ?s (state_of (ngOnChanges noon ?changes ?s)) = ?lines"
    unfolding Let_def by blast+
  have e: "?lines =
     [''[12:00:00 PM] #2. ngOnChanges: Input properties changed'',
      ''[12:00:00 PM] #2. ngOnChanges: - name: '' @ CHR 0x22 # ''A'' @ CHR 0x22 # '' '' @ arrow
         @ '' '' @ CHR 0x22 # ''B'' @ [CHR 0x22]]"
    by (simp add: for_in_name constructor_noon stamped_def noon_def
          json_quote_def json_escape_def)
  from h r n [unfolded e] show ?thesis by (intro conjI)
qed

text \<open>
  C6.  The \<open>N\<close>-th \<open>ngDoCheck\<close> call on a recorder, whatever other calls came before it,
  pushes a line if and only if \<open>N \<le> 5\<close> or \<open>N\<close> is a multiple of 10; the line carries
  \<open>N\<close> and goes to the end of the buffer.
\<close>

theorem doCheck_sampling:
  "(let s = run tls cs (constructor tls);
        N = Suc (occurrences NgDoCheck cs);
        line = stamped tls (clock s)
                 (''#4. ngDoCheck: Change detection run #'' @ num_to_string N)
    in ((pushed (ngDoCheck tls s) \<noteq> pushed s) \<longleftrightarrow> (N \<le> 5 \<or> N mod 10 = 0)) \<and>
       pushed (ngDoCheck tls s) =
         (if N \<le> 5 \<or> N mod 10 = 0 then pushed s @ [line] else pushed s) \<and>
       logs (ngDoCheck tls s) =
         (if N \<le> 5 \<or> N mod 10 = 0
          then (if length (logs s) < 50 then logs s @ [line] else tl (logs s) @ [line])
          else logs s))"
  by (simp add: Let_def ngDoCheck_pushed ngDoCheck_logs run_checkCount constructor_counts)

text \<open>
  C7.  The \<open>N\<close>-th \<open>ngAfterContentChecked\<close> call and the \<open>N\<close>-th \<open>ngAfterViewChecked\<close>
  call each push a line if and only if \<open>N \<le> 3\<close> or \<open>N\<close> is a multiple of 10, where \<open>N\<close>
  counts the earlier calls of the same kind only: calls of any other kind, interleaved in
  any way, do not change the decision.
\<close>

text \<open>
  C7.  The \<open>N\<close>-th \<open>ngAfterContentChecked\<close> call and the \<open>N\<close>-th \<open>ngAfterViewChecked\<close>
  call each push a line if and only if \<open>N \<le> 3\<close> or \<open>N\<close> is a multiple of 10, where \<open>N\<close>
  counts the earlier calls of the same kind only: calls of any other kind, interleaved in
  any way, do not change the decision.
\<close>

theorem content_and_view_sampling:
  "(let s = run tls cs (constructor tls);
        Nc = Suc (occurrences NgAfterContentChecked cs);
        Nv = Suc (occurrences NgAfterViewChecked cs);
        cline = stamped tls (clock s)
                  (''#6. ngAfterContentChecked: Content checked #'' @ num_to_string Nc);
        vline = stamped tls (clock s)
                  (''#8. ngAfterViewChecked: View checked #'' @ num_to_string Nv)
    in ((pushed (ngAfterContentChecked tls s) \<noteq> pushed s) \<longleftrightarrow> (Nc \<le> 3 \<or> Nc mod 10 = 0)) \<and>
       pushed (ngAfterContentChecked tls s) =
         (if Nc \<le> 3 \<or> Nc mod 10 = 0 then pushed s @ [cline] else pushed s) \<and>
       logs (ngAfterContentChecked tls s) =
         (if Nc \<le> 3 \<or> Nc mod 10 = 0
          then (if length (logs s) < 50 then logs s @ [cline] else tl (logs s) @ [cline])
          else logs s) \<and>
       ((pushed (ngAfterViewChecked tls s) \<noteq> pushed s) \<longleftrightarrow> (Nv \<le> 3 \<or> Nv mod 10 = 0)) \<and>
       pushed (ngAfterViewChecked tls s) =
         (if Nv \<le> 3 \<or> Nv mod 10 = 0 then pushed s @ [vline] else pushed s) \<and>
       logs (ngAfterViewChecked tls s) =
         (if Nv \<le> 3 \<or> Nv mod 10 = 0
          then (if length (logs s) < 50 then logs s @ [vline] else tl (logs s) @ [vline])
          else logs s))"
  by (simp add: Let_def ngAfterContentChecked_pushed ngAfterContentChecked_logs
        ngAfterViewChecked_pushed ngAfterViewChecked_logs
        run_contentCheckCount run_viewCheckCount constructor_counts)

text \<open>
  C8.  Construction, \<open>ngOnChanges\<close> with \<open>{name: X -> Y}\<close>, \<open>ngOnInit\<close>, seven \<open>ngDoCheck\<close>
  calls and \<open>ngOnDestroy\<close> leave exactly ten entries in the buffer: the constructor line,
  the two \<open>ngOnChanges\<close> lines, the \<open>ngOnInit\<close> line, the lines of checks 1 to 5 and the
  \<open>ngOnDestroy\<close> line, in this order.
\<close>

theorem scenario_ten_entries:
  "logs (run tls
      ([NgOnChanges [(''name'', Some \<lparr>previousValue = JStr ''X'', currentValue = JStr ''Y'',
                                       firstChange = fc\<rparr>)],
        NgOnInit,
        NgDoCheck, NgDoCheck, NgDoCheck, NgDoCheck, NgDoCheck, NgDoCheck, NgDoCheck,
        NgOnDestroy])
      (constructor tls)) =
   [''['' @ tls 0 @ ''] #1. Constructor: Component instance created'',
    ''['' @ tls 1 @ ''] #2. ngOnChanges: Input properties changed'',
    ''['' @ tls 2 @ ''] #2. ngOnChanges: - name: '' @ CHR 0x22 # ''X'' @ CHR 0x22 # '' '' @ arrow
       @ '' '' @ CHR 0x22 # ''Y'' @ [CHR 0x22],
    ''['' @ tls 3 @ ''] #3. ngOnInit: Component initialized (called once)'',
    ''['' @ tls 4 @ ''] #4. ngDoCheck: Change detection run #1'',
    ''['' @ tls 5 @ ''] #4. ngDoCheck: Change detection run #2'',
    ''['' @ tls 6 @ ''] #4. ngDoCheck: Change detection run #3'',
    ''['' @ tls 7 @ ''] #4. ngDoCheck: Change detection run #4'',
    ''['' @ tls 8 @ ''] #4. ngDoCheck: Change detection run #5'',
    ''['' @ tls 9 @ ''] #9. ngOnDestroy: Component is being destroyed'']"
  by (simp add: constructor_def fresh_def addLog_def ngOnChanges_def ngOnInit_def ngDoCheck_def
        ngOnDestroy_def Let_def json_quote_def json_escape_def num_to_string_digit
        for_in_name)
     (simp add: eval_nat_numeral)

text \<open>
  C9, as stated, fails in two ways.  An absent previous value is printed as \<open>undefined\<close>;
  the text \<open>unknown\<close> does not occur in the line.  And a value on which \<open>JSON.stringify\<close>
  throws ends the notification: with such a value in the first of two entries the call
  throws, and the buffer holds the summary line but no line of the second property.
\<close>

theorem absent_value_counterexample:
  "last (logs (state_of (ngOnChanges noon
                 [(''name'', Some \<lparr>previousValue = JUndefined, currentValue = JStr ''B'',
                                   firstChange = True\<rparr>)]
                 (constructor noon)))) =
     ''[12:00:00 PM] #2. ngOnChanges: - name: undefined '' @ arrow
        @ '' '' @ CHR 0x22 # ''B'' @ [CHR 0x22] \<and>
   \<not> sublist ''unknown''
       (last (logs (state_of (ngOnChanges noon
                 [(''name'', Some \<lparr>previousValue = JUndefined, currentValue = JStr ''B'',
                                   firstChange = True\<rparr>)]
                 (constructor noon))))) \<and>
   \<not> returned (ngOnChanges noon
                 [(''name'', Some \<lparr>previousValue = JStr ''A'',
                                   currentValue = JThrows TypeError, firstChange = False\<rparr>),
                  (''title'', Some \<lparr>previousValue = JStr ''a'', currentValue = JStr ''b'',
                                    firstChange = False\<rparr>)]
                 (constructor noon)) \<and>
   logs (state_of (ngOnChanges noon
                 [(''name'', Some \<lparr>previousValue = JStr ''A'',
                                   currentValue = JThrows TypeError, firstChange = False\<rparr>),
                  (''title'', Some \<lparr>previousValue = JStr ''a'', currentValue = JStr ''b'',
                                    firstChange = False\<rparr>)]
                 (constructor noon))) =
     [''[12:00:00 PM] #1. Constructor: Component instance created'',
      ''[12:00:00 PM] #2. ngOnChanges: Input properties changed'']"
proof -
  have l: "last (logs (state_of (ngOnChanges noon
                 [(''name'', Some \<lparr>previousValue = JUndefined, currentValue = JStr ''B'',
                                   firstChange = True\<rparr>)]
                 (constructor noon)))) =
     ''[12:00:00 PM] #2. ngOnChanges: - name: undefined '' @ arrow
        @ '' '' @ CHR 0x22 # ''B'' @ [CHR 0x22]"
    by (simp add: constructor_noon addLog_def ngOnChanges_def Let_def noon_def
          json_quote_def json_escape_def for_in_name)
  have u: "\<not> sublist ''unknown'' (''[12:00:00 PM] #2. ngOnChanges: - name: undefined '' @ arrow
        @ '' '' @ CHR 0x22 # ''B'' @ [CHR 0x22])"
    by (simp add: arrow_def sublist_code)
  have t: "ngOnChanges noon
                 [(''name'', Some \<lparr>previousValue = JStr ''A'',
                                   currentValue = JThrows TypeError, firstChange = False\<rparr>),
                  (''title'', Some \<lparr>previousValue = JStr ''a'', currentValue = JStr ''b'',
                                    firstChange = False\<rparr>)]
                 (constructor noon) =
      Threw TypeError (addLog noon ''#2. ngOnChanges: Input properties changed'' (constructor noon))"
    by (simp add: ngOnChanges_def for_in_name_title)
  have a: "logs (addLog noon ''#2. ngOnChanges: Input properties changed'' (constructor noon)) =
     [''[12:00:00 PM] #1. Constructor: Component instance created'',
      ''[12:00:00 PM] #2. ngOnChanges: Input properties changed'']"
    by (simp add: constructor_noon addLog_def Let_def noon_def)
  from l u t a show ?thesis by simp
qed

text \<open>
  C9, amended.  For every changeset, \<open>ngOnChanges\<close> appends the summary line and then the
  lines of the enumerated entries up to the first entry that throws; it returns exactly
  when no entry throws, and then the whole notification has been processed.  An entry
  whose previous or current value is absent (\<open>undefined\<close>) does not throw, and the absent
  value is printed in its line as the text \<open>undefined\<close>.  An entry that is itself \<open>null\<close> or
  \<open>undefined\<close>, or that holds a value on which \<open>JSON.stringify\<close> throws, throws.
\<close>

theorem absent_value_rendered_undefined:
  "(let s = run tls cs (constructor tls);
        r = ngOnChanges tls changes s;
        processed = takeWhile (\<lambda>e. \<not> throws e) (for_in changes)
    in logs (state_of r) =
         lastn 50 (logs s
           @ stamped tls (clock s) ''#2. ngOnChanges: Input properties changed''
           # map (\<lambda>(i, entry). stamped tls i (change_message entry))
               (enumerate (Suc (clock s)) processed)) \<and>
       returned r = (processed = for_in changes) \<and>
       \<not> throws (propName, Some \<lparr>previousValue = JUndefined, currentValue = JUndefined,
                                 firstChange = fc\<rparr>) \<and>
       change_message (propName, Some \<lparr>previousValue = JUndefined, currentValue = v,
                                       firstChange = fc\<rparr>) =
         ''#2. ngOnChanges: - '' @ propName @ '': undefined '' @ arrow @ '' '' @ printed v \<and>
       change_message (propName, Some \<lparr>previousValue = v, currentValue = JUndefined,
                                       firstChange = fc\<rparr>) =
         ''#2. ngOnChanges: - '' @ propName @ '': '' @ printed v @ '' '' @ arrow
           @ '' undefined'' \<and>
       throws (propName, None) \<and>
       throws (propName, Some \<lparr>previousValue = JThrows e, currentValue = v,
                               firstChange = fc\<rparr>) \<and>
       throws (propName, Some \<lparr>previousValue = v, currentValue = JThrows e,
                               firstChange = fc\<rparr>))"
proof -
  define s where "s = run tls cs (constructor tls)"
  have b: "buffered s"
    unfolding s_def by (intro buffered_run buffered_constructor)
  have 1: "logs (state_of (ngOnChanges tls changes s)) =
         lastn 50 (logs s
           @ stamped tls (clock s) ''#2. ngOnChanges: Input properties changed''
           # map (\<lambda>(i, entry). stamped tls i (change_message entry))
               (enumerate (Suc (clock s)) (takeWhile (\<lambda>e. \<not> throws e) (for_in changes))))"
    using ngOnChanges_logs [OF b, of tls changes] by (simp add: change_lines_enumerate)
  have 2: "returned (ngOnChanges tls changes s) =
      (takeWhile (\<lambda>e. \<not> throws e) (for_in changes) = for_in changes)"
    by (simp add: ngOnChanges_returned takeWhile_eq_all_conv list_ex_iff)
  from 1 2 show ?thesis
    unfolding Let_def s_def [symmetric] by simp
qed

text \<open>
  C10.  No lifecycle handler and not the constructor changes \<open>name\<close> or \<open>counter\<close>.
  \<open>incrementCounter\<close> leaves \<open>name\<close>; on a counter below \<open>2^53\<close> it adds exactly 1 and
  appends exactly one line, which ends with the decimal numeral of the new value (digits
  only, no leading zero, of that value).
\<close>

theorem state_frame:
  "(c \<noteq> IncrementCounter \<longrightarrow>
      name (state_of (deliver tls c s)) = name s \<and>
      counter (state_of (deliver tls c s)) = counter s) \<and>
   name (constructor tls) = ''Default Component'' \<and> counter (constructor tls) = 0 \<and>
   name (incrementCounter tls s) = name s \<and>
   (counter s < 9007199254740992 \<longrightarrow>
      (let digits = num_to_string (counter s + 1);
           line = stamped tls (clock s) (''User Action: Counter incremented to '' @ digits)
       in counter (incrementCounter tls s) = counter s + 1 \<and>
          pushed (incrementCounter tls s) = pushed s @ [line] \<and>
          logs (incrementCounter tls s) =
            (if length (logs s) < 50 then logs s @ [line] else tl (logs s) @ [line]) \<and>
          list_all is_digit digits \<and> dec_value digits = counter s + 1 \<and>
          hd digits \<noteq> CHR ''0''))"
proof -
  have lifecycle: "c \<noteq> IncrementCounter \<longrightarrow>
      name (state_of (deliver tls c s)) = name s \<and>
      counter (state_of (deliver tls c s)) = counter s"
    by (cases c)
       (simp_all add: ngOnChanges_def ngOnInit_def ngDoCheck_def ngAfterContentInit_def
          ngAfterContentChecked_def ngAfterViewInit_def ngAfterViewChecked_def ngOnDestroy_def
          Let_def addLog_fields loop_fields)
  have create: "name (constructor tls) = ''Default Component'' \<and> counter (constructor tls) = 0"
    by (simp add: constructor_def addLog_fields fresh_def)
  have nm: "name (incrementCounter tls s) = name s"
    by (simp add: incrementCounter_def Let_def addLog_fields)
  have incr: "counter s < 9007199254740992 \<longrightarrow>
      (let digits = num_to_string (counter s + 1);
           line = stamped tls (clock s) (''User Action: Counter incremented to '' @ digits)
       in counter (incrementCounter tls s) = counter s + 1 \<and>
          pushed (incrementCounter tls s) = pushed s @ [line] \<and>
          logs (incrementCounter tls s) =
            (if length (logs s) < 50 then logs s @ [line] else tl (logs s) @ [line]) \<and>
          list_all is_digit digits \<and> dec_value digits = counter s + 1 \<and>
          hd digits \<noteq> CHR ''0'')"
  proof
    assume small: "counter s < 9007199254740992"
    then have pi: "post_increment (counter s) = counter s + 1"
      by (simp add: post_increment_def)
    have c: "counter (incrementCounter tls s) = counter s + 1"
      by (simp add: incrementCounter_def Let_def addLog_fields pi)
    have p: "pushed (incrementCounter tls s) =
        pushed s @ [stamped tls (clock s)
           (''User Action: Counter incremented to '' @ num_to_string (counter s + 1))]"
      by (simp add: incrementCounter_def Let_def addLog_pushed pushed_upd pi)
    have l: "logs (incrementCounter tls s) =
        (if length (logs s) < 50
         then logs s @ [stamped tls (clock s)
           (''User Action: Counter incremented to '' @ num_to_string (counter s + 1))]
         else tl (logs s) @ [stamped tls (clock s)
           (''User Action: Counter incremented to '' @ num_to_string (counter s + 1))])"
      by (simp add: incrementCounter_def Let_def addLog_logs pi)
    have d: "list_all is_digit (num_to_string (counter s + 1))"
      "dec_value (num_to_string (counter s + 1)) = counter s + 1"
      "hd (num_to_string (counter s + 1)) \<noteq> CHR ''0''"
      by (simp_all add: num_to_string_digits dec_value_num_to_string
            num_to_string_no_leading_zero)
    from c p l d show "(let digits = num_to_string (counter s + 1);
           line = stamped tls (clock s) (''User Action: Counter incremented to '' @ digits)
       in counter (incrementCounter tls s) = counter s + 1 \<and>
          pushed (incrementCounter tls s) = pushed s @ [line] \<and>
          logs (incrementCounter tls s) =
            (if length (logs s) < 50 then logs s @ [line] else tl (logs s) @ [line]) \<and>
          list_all is_digit digits \<and> dec_value digits = counter s + 1 \<and>
          hd digits \<noteq> CHR ''0'')"
      unfolding Let_def by (intro conjI)
  qed
  from lifecycle create nm incr show ?thesis by blast
qed

text \<open>
  C10 at a concrete input: \<open>ngDoCheck\<close> and the tenth \<open>incrementCounter\<close> after nine
  increments of a fresh recorder.
\<close>

theorem state_frame_witness:
  "NgDoCheck \<noteq> IncrementCounter \<and>
   name (state_of (deliver noon NgDoCheck (run noon (replicate 9 IncrementCounter) (constructor noon))))
     = ''Default Component'' \<and>
   counter (state_of (deliver noon NgDoCheck
      (run noon (replicate 9 IncrementCounter) (constructor noon)))) = 9 \<and>
   counter (run noon (replicate 9 IncrementCounter) (constructor noon)) < 9007199254740992 \<and>
   counter (incrementCounter noon (run noon (replicate 9 IncrementCounter) (constructor noon)))
     = 10 \<and>
   logs (incrementCounter noon (run noon (replicate 9 IncrementCounter) (constructor noon))) =
     [''[12:00:00 PM] #1. Constructor: Component instance created'',
      ''[12:00:00 PM] User Action: Counter incremented to 1'',
      ''[12:00:00 PM] User Action: Counter incremented to 2'',
      ''[12:00:00 PM] User Action: Counter incremented to 3'',
      ''[12:00:00 PM] User Action: Counter incremented to 4'',
      ''[12:00:00 PM] User Action: Counter incremented to 5'',
      ''[12:00:00 PM] User Action: Counter incremented to 6'',
      ''[12:00:00 PM] User Action: Counter incremented to 7'',
      ''[12:00:00 PM] User Action: Counter incremented to 8'',
      ''[12:00:00 PM] User Action: Counter incremented to 9'',
      ''[12:00:00 PM] User Action: Counter incremented to 10'']"
proof -
  let ?s = "run noon (replicate 9 IncrementCounter) (constructor noon)"
  have s: "?s =
     \<lparr>name = ''Default Component'', counter = 9,
      logs = [''[12:00:00 PM] #1. Constructor: Component instance created'',
        ''[12:00:00 PM] User Action: Counter incremented to 1'',
        ''[12:00:00 PM] User Action: Counter incremented to 2'',
        ''[12:00:00 PM] User Action: Counter incremented to 3'',
        ''[12:00:00 PM] User Action: Counter incremented to 4'',
        ''[12:00:00 PM] User Action: Counter incremented to 5'',
        ''[12:00:00 PM] User Action: Counter incremented to 6'',
        ''[12:00:00 PM] User Action: Counter incremented to 7'',
        ''[12:00:00 PM] User Action: Counter incremented to 8'',
        ''[12:00:00 PM] User Action: Counter incremented to 9''],
      checkCount = 0, contentCheckCount = 0, viewCheckCount = 0,
      console = [''[12:00:00 PM] #1. Constructor: Component instance created'',
        ''[12:00:00 PM] User Action: Counter incremented to 1'',
        ''[12:00:00 PM] User Action: Counter incremented to 2'',
        ''[12:00:00 PM] User Action: Counter incremented to 3'',
        ''[12:00:00 PM] User Action: Counter incremented to 4'',
        ''[12:00:00 PM] User Action: Counter incremented to 5'',
        ''[12:00:00 PM] User Action: Counter incremented to 6'',
        ''[12:00:00 PM] User Action: Counter incremented to 7'',
        ''[12:00:00 PM] User Action: Counter incremented to 8'',
        ''[12:00:00 PM] User Action: Counter incremented to 9''],
      clock = 10\<rparr>"
    unfolding nine_increments
    by (simp add: constructor_noon incrementCounter_def post_increment_def addLog_def Let_def
          noon_def num_to_string_digit)
  have small: "counter ?s < 9007199254740992" by (simp add: s)
  from state_frame [of NgDoCheck noon ?s] small
  have f: "name (state_of (deliver noon NgDoCheck ?s)) = name ?s"
    "counter (state_of (deliver noon NgDoCheck ?s)) = counter ?s"
    "counter (incrementCounter noon ?s) = counter ?s + 1"
    "logs (incrementCounter noon ?s) =
       (if length (logs ?s) < 50
        then logs ?s @ [stamped noon (clock ?s)
               (''User Action: Counter incremented to '' @ num_to_string (counter ?s + 1))]
        else tl (logs ?s) @ [stamped noon (clock ?s)
               (''User Action: Counter incremented to '' @ num_to_string (counter ?s + 1))])"
    unfolding Let_def by blast+
  from f small show ?thesis
    unfolding s by (simp add: stamped_def noon_def num_to_string_10)
qed

end
